theory Spec2Isabelle
  imports Main
begin

text \<open>
  A shallow embedding of the Bluesky post reporter: the command-line reporter
  \<^verbatim>\<open>bluesky_report.py\<close>, the helper \<^verbatim>\<open>resolve_handle.py\<close> and the web service
  \<^verbatim>\<open>app.py\<close>. The first part holds the definitions, component by component; the
  second part the properties proved of them. Network calls and clock readings are
  arguments of the functions that make them; exceptions are values of the type
  \<open>error\<close>.
\<close>

section \<open>The paginated fetcher\<close>

text \<open>
  \<^verbatim>\<open>fetch_user_posts\<close> is the same loop in \<^verbatim>\<open>bluesky_report.py\<close> (class
  BlueskyReporter, lines 54 to 102) and in \<^verbatim>\<open>app.py\<close> (class BlueskyService, lines 63
  to 107); the reporter only adds two prints to the error stream. Every pass of the loop sends one GET request whose
  query parameters are the actor, a page limit and, when a truthy cursor is held, the
  cursor. The upstream service is the loop's environment: it is a function from its own
  state and the request to an outcome and a new state.

  The outcome of one request as the loop sees it:
  \<^item> \<open>RequestFailed\<close>: \<^verbatim>\<open>requests.get\<close>, \<^verbatim>\<open>raise_for_status\<close> or
    \<^verbatim>\<open>response.json\<close> raised a \<^verbatim>\<open>RequestException\<close>, which the loop catches;
  \<^item> \<open>OtherFailure\<close>: any other exception, which no handler of the function catches,
    so that it reaches the caller;
  \<^item> \<open>Page feed cursor\<close>: a decoded body; \<open>feed\<close> is \<^verbatim>\<open>data.get("feed", [])\<close>
    (a missing key is the empty list) and \<open>cursor\<close> is \<^verbatim>\<open>data.get("cursor")\<close>
    (a missing key is \<open>None\<close>).
\<close>

record request =
  actor :: string
  limit :: int
  cursor :: "string option"

datatype 'e response = RequestFailed | OtherFailure | Page "'e list" "string option"

datatype error = UncaughtException | ValueError

type_synonym ('s, 'e) upstream = "'s \<Rightarrow> request \<Rightarrow> 'e response \<times> 's"

text \<open>Python's truth value of \<^verbatim>\<open>cursor\<close>: \<^verbatim>\<open>None\<close> and the empty string are false.\<close>

fun truthy :: "string option \<Rightarrow> bool" where
  "truthy None = False"
| "truthy (Some s) = (s \<noteq> [])"

text \<open>
  The loop state is the accumulator \<open>posts\<close>, the cursor, the requests sent so far (the
  trace of the loop's effect, oldest first) and the upstream's state. The guard
  \<^verbatim>\<open>len(posts) < limit\<close> is tested first; each \<^verbatim>\<open>break\<close> and the failed guard
  return the accumulator. \<open>page_request\<close> is the \<^verbatim>\<open>params\<close> dictionary of one pass:
  the page limit is \<^verbatim>\<open>min(100, limit - len(posts))\<close> and the cursor key is set only
  for a truthy cursor.
\<close>

definition page_request :: "string \<Rightarrow> int \<Rightarrow> nat \<Rightarrow> string option \<Rightarrow> request" where
  "page_request did lim n cur =
     \<lparr>actor = did, limit = min 100 (lim - int n), cursor = (if truthy cur then cur else None)\<rparr>"

function fetch_loop ::
  "('s, 'e) upstream \<Rightarrow> string \<Rightarrow> int \<Rightarrow> 'e list \<Rightarrow> string option \<Rightarrow> request list \<Rightarrow> 's
    \<Rightarrow> error + ('e list \<times> request list \<times> 's)"
where
  "fetch_loop api did lim posts cur sent s =
     (if int (length posts) < lim then
        (let params = page_request did lim (length posts) cur
         in case api s params of
              (RequestFailed, s') \<Rightarrow> Inr (posts, sent @ [params], s')
            | (OtherFailure, s') \<Rightarrow> Inl UncaughtException
            | (Page feed cur', s') \<Rightarrow>
                if feed = [] then Inr (posts, sent @ [params], s')
                else if \<not> truthy cur' then Inr (posts @ feed, sent @ [params], s')
                else fetch_loop api did lim (posts @ feed) cur' (sent @ [params]) s')
      else Inr (posts, sent, s))"
  by pat_completeness auto
termination
  by (relation "measure (\<lambda>(api, did, lim, posts, cur, sent, s). nat (lim - int (length posts)))")
     auto

declare fetch_loop.simps [simp del]

definition fetch_user_posts ::
  "('s, 'e) upstream \<Rightarrow> string \<Rightarrow> int \<Rightarrow> 's \<Rightarrow> error + ('e list \<times> request list \<times> 's)"
where
  "fetch_user_posts api did lim s = fetch_loop api did lim [] None [] s"

text \<open>
  The loop states that a run passes through: \<open>fetched api did lim s0 feeds st\<close> holds
  when, started in upstream state \<open>s0\<close>, the loop has received the non-empty pages
  \<open>feeds\<close>, each with a truthy cursor, and is back at its guard in state \<open>st\<close>.
\<close>

inductive fetched ::
  "('s, 'e) upstream \<Rightarrow> string \<Rightarrow> int \<Rightarrow> 's \<Rightarrow> 'e list list
     \<Rightarrow> 'e list \<times> string option \<times> request list \<times> 's \<Rightarrow> bool"
  for api :: "('s, 'e) upstream" and did :: string and lim :: int and s0 :: 's
where
  start: "fetched api did lim s0 [] ([], None, [], s0)"
| page: "fetched api did lim s0 feeds (posts, cur, sent, s) \<Longrightarrow>
         int (length posts) < lim \<Longrightarrow>
         api s (page_request did lim (length posts) cur) = (Page feed cur', s') \<Longrightarrow>
         feed \<noteq> [] \<Longrightarrow> truthy cur' \<Longrightarrow>
         fetched api did lim s0 (feeds @ [feed])
           (posts @ feed, cur', sent @ [page_request did lim (length posts) cur], s')"

code_pred fetched .


subsection \<open>Decimal numerals\<close>

text \<open>
  \<open>str_nat\<close> and \<open>str_int\<close> are Python's \<^verbatim>\<open>str\<close> on integers (the
  conversion an f-string applies); \<open>nat_of_str\<close> reads a digit string back.
  \<open>digit_char\<close> is only ever applied to a number below ten.
\<close>

definition digit_char :: "nat \<Rightarrow> char" where
  "digit_char d = ''0123456789'' ! d"

fun str_nat :: "nat \<Rightarrow> string" where
  "str_nat n = (if n < 10 then [digit_char n] else str_nat (n div 10) @ [digit_char (n mod 10)])"

declare str_nat.simps [simp del]

definition str_int :: "int \<Rightarrow> string" where
  "str_int i = (if i < 0 then CHR ''-'' # str_nat (nat (- i)) else str_nat (nat i))"

definition digit_val :: "char \<Rightarrow> nat" where
  "digit_val c = of_char c - 48"

definition nat_of_str :: "string \<Rightarrow> nat" where
  "nat_of_str s = foldl (\<lambda>a c. 10 * a + digit_val c) 0 s"


subsection \<open>Simulated upstreams\<close>

text \<open>
  A simulated feed endpoint over a fixed list of entries. The cursor it hands out is the
  offset of the next entry, in decimal; a request is served the next
  \<open>min P limit\<close> entries from the offset of its cursor (from the start without one).
  After the page that reaches the end of the feed the cursor is present only if
  \<open>cursor_at_end\<close> is set: both behaviours occur in practice, and in the second the
  client learns that the feed is exhausted from an empty page. \<open>ceil_div\<close> is the
  rounded-up quotient.
\<close>

definition ceil_div :: "nat \<Rightarrow> nat \<Rightarrow> nat" where
  "ceil_div a b = (a + b - 1) div b"

definition cursor_offset :: "string option \<Rightarrow> nat" where
  "cursor_offset c = (case c of None \<Rightarrow> 0 | Some t \<Rightarrow> nat_of_str t)"

definition sim_upstream :: "'e list \<Rightarrow> nat \<Rightarrow> bool \<Rightarrow> (unit, 'e) upstream" where
  "sim_upstream entries P cursor_at_end s req =
     (let off = cursor_offset (cursor req);
          page = take (min P (nat (limit req))) (drop off entries);
          nxt = off + length page
      in (Page page (if nxt < length entries \<or> cursor_at_end then Some (str_nat nxt) else None), s))"


text \<open>
  An upstream that serves two pages and then fails every request; its state counts the
  requests it has seen.
\<close>

definition flaky_upstream :: "(nat, nat) upstream" where
  "flaky_upstream n req =
     (if n = 0 then Page [1, 2] (Some ''c1'')
      else if n = 1 then Page [3] (Some ''c2'')
      else RequestFailed, Suc n)"


section \<open>Strings\<close>

text \<open>
  A Python \<^verbatim>\<open>str\<close> is modelled as a \<open>string\<close>, one \<open>char\<close> for each code point; the
  model covers the code points below 256. The operations are those the sources call:
  \<^verbatim>\<open>s.startswith(p)\<close>, \<^verbatim>\<open>s.strip()\<close> (which removes the characters for which
  \<^verbatim>\<open>isspace\<close> holds from both ends), \<^verbatim>\<open>s.split(sep)\<close> for a one-character separator
  (the result is never empty: a string with no separator is its own single segment),
  \<^verbatim>\<open>s.replace(old, new)\<close> for a one-character \<^verbatim>\<open>old\<close>, \<^verbatim>\<open>s.lower()\<close> and
  \<^verbatim>\<open>sep.join(xs)\<close>.
\<close>

definition startswith :: "string \<Rightarrow> string \<Rightarrow> bool" where
  "startswith s p = (take (length p) s = p)"

definition isspace :: "char \<Rightarrow> bool" where
  "isspace c = ((of_char c :: nat) \<in> {9, 10, 11, 12, 13, 28, 29, 30, 31, 32, 133, 160})"

definition str_strip :: "string \<Rightarrow> string" where
  "str_strip s = rev (dropWhile isspace (rev (dropWhile isspace s)))"

fun split_from :: "char \<Rightarrow> string \<Rightarrow> string \<Rightarrow> string list" where
  "split_from sep cur [] = [cur]"
| "split_from sep cur (c # cs) =
     (if c = sep then cur # split_from sep [] cs else split_from sep (cur @ [c]) cs)"

definition str_split :: "string \<Rightarrow> char \<Rightarrow> string list" where
  "str_split s sep = split_from sep [] s"

definition str_replace :: "string \<Rightarrow> char \<Rightarrow> string \<Rightarrow> string" where
  "str_replace s old new = concat (map (\<lambda>c. if c = old then new else [c]) s)"

definition lower_char :: "char \<Rightarrow> char" where
  "lower_char c =
     (let n = (of_char c :: nat)
      in if (65 \<le> n \<and> n \<le> 90) \<or> (192 \<le> n \<and> n \<le> 222 \<and> n \<noteq> 215)
         then char_of (n + 32) else c)"

definition str_lower :: "string \<Rightarrow> string" where
  "str_lower s = map lower_char s"

fun join :: "string \<Rightarrow> string list \<Rightarrow> string" where
  "join sep [] = []"
| "join sep [x] = x"
| "join sep (x # y # ys) = x @ sep @ join sep (y # ys)"

section \<open>Handle clean-up before the profile lookup\<close>

text \<open>
  Two places prepare the \<^verbatim>\<open>actor\<close> parameter of the profile lookup from what the user
  typed. \<open>clean_handle\<close> is \<^verbatim>\<open>main\<close> of \<^verbatim>\<open>resolve_handle.py\<close> (lines 52 to 60; the
  value it passes to \<^verbatim>\<open>resolve_handle\<close>); \<open>service_clean_handle\<close> is the head of
  \<^verbatim>\<open>BlueskyService.resolve_handle\<close> in \<^verbatim>\<open>app.py\<close> (lines 31 to 36), which calls
  \<^verbatim>\<open>strip\<close> first.
  Neither looks at whether its input is a DID. The reporter of \<^verbatim>\<open>bluesky_report.py\<close>,
  the one entry point that takes a DID, sends its argument as it is
  (\<open>reporter_profile_actor\<close>; \<^verbatim>\<open>BlueskyReporter.resolve_handle\<close>, lines 42 to 46).
\<close>

definition clean_handle :: "string \<Rightarrow> string" where
  "clean_handle handle =
     (let handle = (if startswith handle ''@'' then drop 1 handle else handle)
      in if CHR ''.'' \<notin> set handle then handle @ ''.bsky.social'' else handle)"

definition service_clean_handle :: "string \<Rightarrow> string" where
  "service_clean_handle handle =
     (let handle = str_strip handle;
          handle = (if startswith handle ''@'' then drop 1 handle else handle)
      in if CHR ''.'' \<notin> set handle then handle @ ''.bsky.social'' else handle)"

definition reporter_profile_actor :: "string \<Rightarrow> string" where
  "reporter_profile_actor did = did"

text \<open>
  The normalisation rule in the words of the specification, for comparison: strip one
  leading \<open>@\<close>, then append the default suffix if and only if what remains has no dot.
\<close>

definition spec_normalize :: "string \<Rightarrow> string" where
  "spec_normalize h =
     (let r = (case h of c # t \<Rightarrow> if c = CHR ''@'' then t else h | [] \<Rightarrow> h)
      in if CHR ''.'' \<in> set r then r else r @ ''.bsky.social'')"

section \<open>Dates and times\<close>

text \<open>
  A \<^verbatim>\<open>datetime\<close> value with its fields; \<open>utcoffset\<close> is the offset of an aware value
  in microseconds and \<open>None\<close> for a naive one. \<open>valid_datetime\<close> is the range check of
  the \<^verbatim>\<open>datetime\<close> constructor. \<open>toordinal\<close> is the proleptic Gregorian day number
  (1 for 0001-01-01), from which the difference of two values is computed.
\<close>

record datetime =
  year :: nat
  month :: nat
  day :: nat
  hour :: nat
  minute :: nat
  second :: nat
  microsecond :: nat
  utcoffset :: "int option"

definition is_leap :: "nat \<Rightarrow> bool" where
  "is_leap y = (y mod 4 = 0 \<and> (y mod 100 \<noteq> 0 \<or> y mod 400 = 0))"

definition days_in_month :: "nat \<Rightarrow> nat \<Rightarrow> nat" where
  "days_in_month y m =
     (if m = 2 \<and> is_leap y then 29
      else if 1 \<le> m \<and> m \<le> 12 then [31, 28, 31, 30, 31, 30, 31, 31, 30, 31, 30, 31] ! (m - 1)
      else 0)"

definition days_before_year :: "nat \<Rightarrow> int" where
  "days_before_year y = (let p = int y - 1 in p * 365 + p div 4 - p div 100 + p div 400)"

definition days_before_month :: "nat \<Rightarrow> nat \<Rightarrow> int" where
  "days_before_month y m =
     int (sum_list (map (days_in_month y) [1..<m]))"

definition toordinal :: "datetime \<Rightarrow> int" where
  "toordinal dt = days_before_year (year dt) + days_before_month (year dt) (month dt) + int (day dt)"

definition valid_datetime :: "datetime \<Rightarrow> bool" where
  "valid_datetime dt =
     (1 \<le> year dt \<and> year dt \<le> 9999 \<and> 1 \<le> month dt \<and> month dt \<le> 12 \<and>
      1 \<le> day dt \<and> day dt \<le> days_in_month (year dt) (month dt) \<and>
      hour dt < 24 \<and> minute dt < 60 \<and> second dt < 60 \<and> microsecond dt < 1000000 \<and>
      (case utcoffset dt of None \<Rightarrow> True | Some off \<Rightarrow> \<bar>off\<bar> < 86400000000))"

text \<open>
  \<^verbatim>\<open>now - dt\<close> for two values of the same time zone, as \<^verbatim>\<open>_get_relative_time\<close>
  forms it (\<^verbatim>\<open>now\<close> is read from the clock in the zone of \<^verbatim>\<open>dt\<close>): the difference
  of the wall-clock fields, here in whole microseconds. The source goes on with the float
  \<^verbatim>\<open>diff.total_seconds()\<close>; the model keeps the exact integer, so \<^verbatim>\<open>seconds < 60\<close>
  is \<open>us < 60 * 1000000\<close> and \<^verbatim>\<open>int(seconds / 60)\<close> is \<open>us div (60 * 1000000)\<close>. For
  differences of less than a week at microsecond resolution the doubles involved are far
  from any rounding boundary, so the float results are the same.
\<close>

definition elapsed_microseconds :: "datetime \<Rightarrow> datetime \<Rightarrow> int" where
  "elapsed_microseconds now dt =
     ((toordinal now - toordinal dt) * 86400
        + (int (hour now) * 3600 + int (minute now) * 60 + int (second now))
        - (int (hour dt) * 3600 + int (minute dt) * 60 + int (second dt))) * 1000000
      + (int (microsecond now) - int (microsecond dt))"

text \<open>
  The two \<^verbatim>\<open>strftime\<close> formats of the sources: \<^verbatim>\<open>"%Y-%m-%d %H:%M:%S UTC"\<close> and
  \<^verbatim>\<open>"%b %d, %Y"\<close>, as CPython writes them through the C library of a Linux system:
  \<^verbatim>\<open>%Y\<close> is the year in decimal with no padding (so \<open>999\<close> for the year 999, and four
  digits from the year 1000 on), \<^verbatim>\<open>%m\<close>, \<^verbatim>\<open>%d\<close>, \<^verbatim>\<open>%H\<close>, \<^verbatim>\<open>%M\<close> and
  \<^verbatim>\<open>%S\<close> are padded with zeros to two digits, and \<^verbatim>\<open>%b\<close> is the month name of the
  C locale.
\<close>

definition zfill :: "nat \<Rightarrow> string \<Rightarrow> string" where
  "zfill w s = replicate (w - length s) CHR ''0'' @ s"

definition month_abbr :: "nat \<Rightarrow> string" where
  "month_abbr m =
     (if 1 \<le> m \<and> m \<le> 12
      then [''Jan'', ''Feb'', ''Mar'', ''Apr'', ''May'', ''Jun'',
            ''Jul'', ''Aug'', ''Sep'', ''Oct'', ''Nov'', ''Dec''] ! (m - 1)
      else [])"

definition strftime_utc :: "datetime \<Rightarrow> string" where
  "strftime_utc dt =
     str_nat (year dt) @ ''-'' @ zfill 2 (str_nat (month dt)) @ ''-''
       @ zfill 2 (str_nat (day dt)) @ '' '' @ zfill 2 (str_nat (hour dt)) @ '':''
       @ zfill 2 (str_nat (minute dt)) @ '':'' @ zfill 2 (str_nat (second dt)) @ '' UTC''"

definition strftime_short :: "datetime \<Rightarrow> string" where
  "strftime_short dt =
     month_abbr (month dt) @ '' '' @ zfill 2 (str_nat (day dt)) @ '', ''
       @ str_nat (year dt)"

text \<open>
  \<^verbatim>\<open>BlueskyService._get_relative_time\<close> of \<^verbatim>\<open>app.py\<close> (lines 164 to 183);
  \<open>now\<close> is the clock reading \<^verbatim>\<open>datetime.now(dt.tzinfo)\<close>.
\<close>

definition get_relative_time :: "datetime \<Rightarrow> datetime \<Rightarrow> string" where
  "get_relative_time now dt =
     (let us = elapsed_microseconds now dt
      in if us < 60 * 1000000 then ''just now''
         else if us < 3600 * 1000000 then
           (let minutes = us div (60 * 1000000)
            in if minutes > 1 then str_int minutes @ ''m ago'' else ''1m ago'')
         else if us < 86400 * 1000000 then
           (let hours = us div (3600 * 1000000)
            in if hours > 1 then str_int hours @ ''h ago'' else ''1h ago'')
         else if us < 604800 * 1000000 then
           (let days = us div (86400 * 1000000)
            in if days > 1 then str_int days @ ''d ago'' else ''1d ago'')
         else strftime_short dt)"

subsection \<open>Parsing ISO timestamps\<close>

text \<open>
  \<^verbatim>\<open>datetime.fromisoformat\<close> belongs to the Python standard library, and what it accepts
  depends on the Python release. The projector is therefore given its parser as an
  argument: a function from the string to the parsed value, \<open>None\<close> when the library
  raises. Statements about the projector hold for every such parser.

  \<open>fromisoformat_model\<close> describes the strings that every release since Python 3.7
  accepts, and the value they are parsed to: the format
  \<^verbatim>\<open>YYYY-MM-DD[*HH[:MM[:SS[.fff[fff]]]][+HH:MM[:SS[.ffffff]]]]\<close>, where \<^verbatim>\<open>*\<close> is any one
  character and the time, when there is a separator, is not empty. It is a lower bound
  on the library's parser, not the parser itself: a release may accept more (Python 3.11
  also takes a fraction of any length and a trailing \<^verbatim>\<open>Z\<close>), so nothing is concluded
  from the model rejecting a string. The trailing \<^verbatim>\<open>Z\<close> is outside the format, which
  is why the sources replace it. \<open>accepts_common_format\<close> says of a parser that it
  parses the strings of this format to these values.
\<close>

type_synonym iso_parser = "string \<Rightarrow> datetime option"

definition is_digit :: "char \<Rightarrow> bool" where
  "is_digit c = (48 \<le> (of_char c :: nat) \<and> (of_char c :: nat) \<le> 57)"

definition parse_digits :: "string \<Rightarrow> nat option" where
  "parse_digits s = (if s \<noteq> [] \<and> list_all is_digit s then Some (nat_of_str s) else None)"

definition parse_isoformat_date :: "string \<Rightarrow> (nat \<times> nat \<times> nat) option" where
  "parse_isoformat_date s =
     (if length s \<noteq> 10 \<or> s ! 4 \<noteq> CHR ''-'' \<or> s ! 7 \<noteq> CHR ''-'' then None
      else case (parse_digits (take 4 s), parse_digits (take 2 (drop 5 s)),
                 parse_digits (drop 8 s)) of
             (Some y, Some m, Some d) \<Rightarrow> Some (y, m, d)
           | _ \<Rightarrow> None)"

definition parse_hh_mm_ss_ff :: "string \<Rightarrow> (nat \<times> nat \<times> nat \<times> nat) option" where
  "parse_hh_mm_ss_ff t =
     (let n = length t;
          hh = parse_digits (take 2 t);
          mm = (if 5 \<le> n \<and> t ! 2 = CHR '':'' then parse_digits (take 2 (drop 3 t))
                else if n = 2 then Some 0 else None);
          ss = (if 8 \<le> n \<and> t ! 5 = CHR '':'' then parse_digits (take 2 (drop 6 t))
                else if n \<le> 5 then Some 0 else None);
          ff = (if (n = 12 \<or> n = 15) \<and> t ! 8 = CHR ''.''
                then map_option (\<lambda>f. if n = 12 then f * 1000 else f) (parse_digits (drop 9 t))
                else if n \<le> 8 then Some 0 else None)
      in if n \<in> {2, 5, 8, 12, 15} then
           (case (hh, mm, ss, ff) of
              (Some h, Some m, Some s, Some f) \<Rightarrow> Some (h, m, s, f)
            | _ \<Rightarrow> None)
         else None)"

definition find_char :: "string \<Rightarrow> char \<Rightarrow> nat option" where
  "find_char s c = (if c \<in> set s then Some (length (takeWhile (\<lambda>x. x \<noteq> c) s)) else None)"

definition parse_isoformat_time ::
  "string \<Rightarrow> ((nat \<times> nat \<times> nat \<times> nat) \<times> int option) option" where
  "parse_isoformat_time tstr =
     (if length tstr < 2 then None
      else
        (let tz_pos = (case find_char tstr CHR ''-'' of Some i \<Rightarrow> Some i
                       | None \<Rightarrow> find_char tstr CHR ''+'')
         in case tz_pos of
              None \<Rightarrow> map_option (\<lambda>tc. (tc, None)) (parse_hh_mm_ss_ff tstr)
            | Some i \<Rightarrow>
                (let tzstr = drop (Suc i) tstr
                 in if length tzstr \<notin> {5, 8, 15} then None
                    else case (parse_hh_mm_ss_ff (take i tstr), parse_hh_mm_ss_ff tzstr) of
                           (Some tc, Some (h, m, s, f)) \<Rightarrow>
                             (let td = ((int h * 3600 + int m * 60 + int s) * 1000000 + int f)
                                        * (if tstr ! i = CHR ''-'' then - 1 else 1)
                              in if \<bar>td\<bar> < 86400000000 then Some (tc, Some td) else None)
                         | _ \<Rightarrow> None)))"

definition fromisoformat_model :: iso_parser where
  "fromisoformat_model date_string =
     (case parse_isoformat_date (take 10 date_string) of
        None \<Rightarrow> None
      | Some (y, m, d) \<Rightarrow>
          (case (if length date_string = 10 then Some ((0, 0, 0, 0), None)
                 else parse_isoformat_time (drop 11 date_string)) of
             None \<Rightarrow> None
           | Some ((hh, mm, ss, ff), tz) \<Rightarrow>
               (let dt = \<lparr>year = y, month = m, day = d, hour = hh, minute = mm, second = ss,
                          microsecond = ff, utcoffset = tz\<rparr>
                in if valid_datetime dt then Some dt else None)))"

definition accepts_common_format :: "iso_parser \<Rightarrow> bool" where
  "accepts_common_format fromisoformat =
     (\<forall>s dt. fromisoformat_model s = Some dt \<longrightarrow> fromisoformat s = Some dt)"

section \<open>The summary projector\<close>

text \<open>
  A feed entry as the upstream API documents it, every field optional:
  \<^verbatim>\<open>d.get(key, default)\<close> is \<open>get_or\<close>, and a missing \<^verbatim>\<open>post\<close> or \<^verbatim>\<open>record\<close>
  is the empty dictionary, all of whose fields are missing. Fields that are present are
  taken to have the type the API gives them.
\<close>

record post_record =
  rec_text :: "string option"
  rec_createdAt :: "string option"

record post_view =
  post_record :: "post_record option"
  post_uri :: "string option"
  likeCount :: "int option"
  repostCount :: "int option"
  replyCount :: "int option"
  quoteCount :: "int option"

record feed_entry =
  entry_post :: "post_view option"

definition get_or :: "'a option \<Rightarrow> 'a \<Rightarrow> 'a" where
  "get_or field dflt = (case field of None \<Rightarrow> dflt | Some v \<Rightarrow> v)"

definition empty_record :: post_record where
  "empty_record = \<lparr>rec_text = None, rec_createdAt = None\<rparr>"

definition empty_post :: post_view where
  "empty_post = \<lparr>post_record = None, post_uri = None, likeCount = None, repostCount = None,
                 replyCount = None, quoteCount = None\<rparr>"

text \<open>
  The summary dictionaries. The reporter's has nine keys; the web service's has the same
  nine and \<^verbatim>\<open>relative_date\<close> and \<^verbatim>\<open>text\<close> in addition.
\<close>

record summary =
  sum_handle :: string
  sum_post_date :: string
  sum_post_url :: string
  sum_first_line :: string
  sum_likes :: int
  sum_reposts :: int
  sum_replies :: int
  sum_quotes :: int
  sum_uri :: string

record service_summary = summary +
  sum_relative_date :: string
  sum_text :: string

text \<open>
  \<^verbatim>\<open>extract_post_summary\<close>, first as in \<^verbatim>\<open>bluesky_report.py\<close> (lines 104 to
  154), then as in \<^verbatim>\<open>app.py\<close> (lines 109 to 162). \<open>first_line_of\<close>, \<open>format_date\<close>
  and \<open>post_id_of\<close> are three of its expressions, named. The two differ in the test for a known handle (the reporter's
  \<^verbatim>\<open>resolve_handle\<close> answers \<^verbatim>\<open>"Unknown"\<close> when the lookup fails, the service holds
  the handle the lookup returned) and in the two extra fields. The \<^verbatim>\<open>try\<close> block is the
  \<open>case\<close> on the parser's result: its bare \<^verbatim>\<open>except\<close> catches whatever the parser
  raises.
\<close>

definition newline :: char where
  "newline = CHR 0x0A"

definition first_line_of :: "string \<Rightarrow> string" where
  "first_line_of text = (if text \<noteq> [] then hd (str_split text newline) else [])"

definition format_date :: "iso_parser \<Rightarrow> string \<Rightarrow> string" where
  "format_date fromisoformat created_at =
     (case fromisoformat (str_replace created_at CHR ''Z'' ''+00:00'') of
        Some dt \<Rightarrow> strftime_utc dt
      | None \<Rightarrow> created_at)"

definition post_id_of :: "string \<Rightarrow> string" where
  "post_id_of uri = (if uri \<noteq> [] then last (str_split uri CHR ''/'') else [])"

definition extract_post_summary :: "iso_parser \<Rightarrow> feed_entry \<Rightarrow> string \<Rightarrow> summary" where
  "extract_post_summary fromisoformat post_data handle =
     (let post = get_or (entry_post post_data) empty_post;
          rec = get_or (post_record post) empty_record;
          text = get_or (rec_text rec) [];
          first_line = first_line_of text;
          created_at = get_or (rec_createdAt rec) [];
          formatted_date = format_date fromisoformat created_at;
          uri = get_or (post_uri post) [];
          post_id = post_id_of uri;
          post_url = (if post_id \<noteq> [] \<and> handle \<noteq> ''Unknown''
                      then ''https://bsky.app/profile/'' @ handle @ ''/post/'' @ post_id
                      else []);
          like_count = get_or (likeCount post) 0;
          repost_count = get_or (repostCount post) 0;
          reply_count = get_or (replyCount post) 0;
          quote_count = get_or (quoteCount post) 0
      in \<lparr>sum_handle = handle, sum_post_date = formatted_date, sum_post_url = post_url,
          sum_first_line = first_line,
          sum_likes = like_count, sum_reposts = repost_count,
          sum_replies = reply_count, sum_quotes = quote_count,
          sum_uri = uri\<rparr>)"

definition service_extract_post_summary ::
  "iso_parser \<Rightarrow> datetime \<Rightarrow> feed_entry \<Rightarrow> string \<Rightarrow> service_summary" where
  "service_extract_post_summary fromisoformat now post_data handle =
     (let post = get_or (entry_post post_data) empty_post;
          rec = get_or (post_record post) empty_record;
          text = get_or (rec_text rec) [];
          first_line = first_line_of text;
          created_at = get_or (rec_createdAt rec) [];
          (formatted_date, relative_date) =
             (case fromisoformat (str_replace created_at CHR ''Z'' ''+00:00'') of
                Some dt \<Rightarrow> (strftime_utc dt, get_relative_time now dt)
              | None \<Rightarrow> (created_at, created_at));
          uri = get_or (post_uri post) [];
          post_id = post_id_of uri;
          post_url = (if post_id \<noteq> [] \<and> handle \<noteq> []
                      then ''https://bsky.app/profile/'' @ handle @ ''/post/'' @ post_id
                      else []);
          like_count = get_or (likeCount post) 0;
          repost_count = get_or (repostCount post) 0;
          reply_count = get_or (replyCount post) 0;
          quote_count = get_or (quoteCount post) 0
      in \<lparr>sum_handle = handle, sum_post_date = formatted_date, sum_post_url = post_url,
          sum_first_line = first_line,
          sum_likes = like_count, sum_reposts = repost_count,
          sum_replies = reply_count, sum_quotes = quote_count,
          sum_uri = uri, sum_relative_date = relative_date, sum_text = text\<rparr>)"

section \<open>The report formatter\<close>

subsection \<open>CSV\<close>

text \<open>
  \<^verbatim>\<open>_generate_csv\<close> (\<^verbatim>\<open>bluesky_report.py\<close>, lines 191 to 205) returns the empty
  string for an empty list and otherwise writes through \<^verbatim>\<open>csv.DictWriter\<close> with the
  default dialect:
  fields separated by commas, rows ended by CR LF, a field quoted only when it contains a
  comma, a double quote, CR or LF, and a double quote inside a quoted field doubled.
  \<open>dict_to_list\<close> is the writer's step from a row dictionary to the cells in the order
  of \<^verbatim>\<open>fieldnames\<close>; numbers are written with \<^verbatim>\<open>str\<close>.
\<close>

definition dquote :: char where
  "dquote = CHR 0x22"

definition csv_field :: "string \<Rightarrow> string" where
  "csv_field s =
     (if \<exists>c \<in> set s. c = CHR '','' \<or> c = dquote \<or> c = CHR 0x0D \<or> c = CHR 0x0A
      then [dquote] @ str_replace s dquote [dquote, dquote] @ [dquote]
      else s)"

definition csv_row :: "string list \<Rightarrow> string" where
  "csv_row cells = join '','' (map csv_field cells) @ [CHR 0x0D, CHR 0x0A]"

definition fieldnames :: "string list" where
  "fieldnames = [''handle'', ''post_date'', ''post_url'', ''first_line'', ''likes'',
                 ''reposts'', ''replies'', ''quotes'', ''uri'']"

definition dict_to_list :: "summary \<Rightarrow> string list" where
  "dict_to_list row = [sum_handle row, sum_post_date row, sum_post_url row, sum_first_line row,
                       str_int (sum_likes row), str_int (sum_reposts row),
                       str_int (sum_replies row), str_int (sum_quotes row), sum_uri row]"

definition generate_csv :: "summary list \<Rightarrow> string" where
  "generate_csv summaries =
     (if summaries = [] then []
      else csv_row fieldnames @ concat (map (\<lambda>row. csv_row (dict_to_list row)) summaries))"

subsection \<open>JSON\<close>

text \<open>
  \<^verbatim>\<open>json.dumps(obj, indent=2)\<close> on the values the report is built from: strings,
  integers, lists and dictionaries (keys in insertion order). Strings are escaped as
  with \<^verbatim>\<open>ensure_ascii\<close>; an empty list is \<^verbatim>\<open>[]\<close> and an empty dictionary
  \<^verbatim>\<open>{}\<close>, anything else is spread over lines indented by two spaces per level.
\<close>

datatype json = JString string | JInt int | JList "json list" | JDict "(string \<times> json) list"

definition hex_digit :: "nat \<Rightarrow> char" where
  "hex_digit d = (if d < 10 then char_of (48 + d) else char_of (87 + d))"

definition json_escape :: "char \<Rightarrow> string" where
  "json_escape c =
     (let n = (of_char c :: nat)
      in if c = dquote then [CHR 0x5C, dquote]
         else if c = CHR 0x5C then [CHR 0x5C, CHR 0x5C]
         else if n = 10 then [CHR 0x5C, CHR ''n'']
         else if n = 13 then [CHR 0x5C, CHR ''r'']
         else if n = 9 then [CHR 0x5C, CHR ''t'']
         else if n = 12 then [CHR 0x5C, CHR ''f'']
         else if n = 8 then [CHR 0x5C, CHR ''b'']
         else if n < 32 \<or> 126 < n
           then [CHR 0x5C, CHR ''u'', CHR ''0'', CHR ''0''] @ [hex_digit (n div 16), hex_digit (n mod 16)]
         else [c])"

definition json_string :: "string \<Rightarrow> string" where
  "json_string s = [dquote] @ concat (map json_escape s) @ [dquote]"

definition newline_indent :: "nat \<Rightarrow> string" where
  "newline_indent level = newline # replicate (2 * level) CHR '' ''"

fun dumps :: "nat \<Rightarrow> json \<Rightarrow> string" where
  "dumps level (JString s) = json_string s"
| "dumps level (JInt i) = str_int i"
| "dumps level (JList xs) =
     (if xs = [] then ''[]''
      else ''['' @ newline_indent (Suc level)
           @ join ('','' @ newline_indent (Suc level)) (map (dumps (Suc level)) xs)
           @ newline_indent level @ '']'')"
| "dumps level (JDict kvs) =
     (if kvs = [] then ''{}''
      else ''{'' @ newline_indent (Suc level)
           @ join ('','' @ newline_indent (Suc level))
               (map (\<lambda>kv. json_string (fst kv) @ '': '' @ dumps (Suc level) (snd kv)) kvs)
           @ newline_indent level @ ''}'')"

definition summary_json :: "summary \<Rightarrow> json" where
  "summary_json row =
     JDict [(''handle'', JString (sum_handle row)), (''post_date'', JString (sum_post_date row)),
            (''post_url'', JString (sum_post_url row)),
            (''first_line'', JString (sum_first_line row)),
            (''likes'', JInt (sum_likes row)), (''reposts'', JInt (sum_reposts row)),
            (''replies'', JInt (sum_replies row)), (''quotes'', JInt (sum_quotes row)),
            (''uri'', JString (sum_uri row))]"

definition report_json :: "string \<Rightarrow> string \<Rightarrow> summary list \<Rightarrow> string \<Rightarrow> json" where
  "report_json did handle summaries generated_at =
     JDict [(''did'', JString did), (''handle'', JString handle),
            (''post_count'', JInt (int (length summaries))),
            (''generated_at'', JString generated_at),
            (''posts'', JList (map summary_json summaries))]"

subsection \<open>The report\<close>

text \<open>
  \<^verbatim>\<open>BlueskyReporter.resolve_handle\<close> (lines 31 to 52) catches every exception and
  answers \<^verbatim>\<open>"Unknown"\<close>; so does a profile without a \<^verbatim>\<open>handle\<close> key.
  \<^verbatim>\<open>generate_report\<close> (lines 156 to 189) looks the handle up, fetches, projects and formats; the format is
  tested last, so an unsupported format raises \<^verbatim>\<open>ValueError\<close> only after the requests
  were made. \<open>utcnow\<close> is the clock reading for \<^verbatim>\<open>generated_at\<close>.
\<close>

datatype profile_response = ProfileFailed | Profile "string option"

definition resolve_handle ::
  "('s \<Rightarrow> string \<Rightarrow> profile_response \<times> 's) \<Rightarrow> string \<Rightarrow> 's \<Rightarrow> string \<times> 's" where
  "resolve_handle get_profile did s =
     (case get_profile s did of
        (ProfileFailed, s') \<Rightarrow> (''Unknown'', s')
      | (Profile h, s') \<Rightarrow> (get_or h ''Unknown'', s'))"

definition generate_report ::
  "('s \<Rightarrow> string \<Rightarrow> profile_response \<times> 's) \<Rightarrow> ('s, feed_entry) upstream \<Rightarrow> iso_parser
     \<Rightarrow> datetime \<Rightarrow> string \<Rightarrow> string \<Rightarrow> int \<Rightarrow> 's \<Rightarrow> error + string \<times> 's"
where
  "generate_report get_profile get_feed fromisoformat utcnow did output_format lim s =
     (case resolve_handle get_profile did s of
        (handle, s1) \<Rightarrow>
          (case fetch_user_posts get_feed did lim s1 of
             Inl e \<Rightarrow> Inl e
           | Inr (posts, sent, s2) \<Rightarrow>
               (let summaries = map (\<lambda>post. extract_post_summary fromisoformat post handle) posts
                in if str_lower output_format = ''json''
                   then Inr (dumps 0 (report_json did handle summaries (strftime_utc utcnow)), s2)
                   else if str_lower output_format = ''csv''
                   then Inr (generate_csv summaries, s2)
                   else Inl ValueError)))"

text \<open>An example value: 2024-01-15 10:30:00 UTC.\<close>

definition half_past_ten :: datetime where
  "half_past_ten = \<lparr>year = 2024, month = 1, day = 15, hour = 10, minute = 30, second = 0,
                     microsecond = 0, utcoffset = Some 0\<rparr>"

text \<open>
  For the statements about the projector: the \<^verbatim>\<open>uri\<close> and \<^verbatim>\<open>createdAt\<close> strings of an
  entry as the projector reads them (empty when a key on the way is missing), and the
  final segment of a string split at \<open>/\<close>, defined directly as what follows the last
  \<open>/\<close> (the whole string when there is none).
\<close>

definition entry_uri :: "feed_entry \<Rightarrow> string" where
  "entry_uri post_data = get_or (post_uri (get_or (entry_post post_data) empty_post)) []"

definition entry_created_at :: "feed_entry \<Rightarrow> string" where
  "entry_created_at post_data =
     get_or (rec_createdAt (get_or (post_record (get_or (entry_post post_data) empty_post))
                              empty_record)) []"

definition final_segment :: "string \<Rightarrow> string" where
  "final_segment s = rev (takeWhile (\<lambda>c. c \<noteq> CHR ''/'') (rev s))"

definition example_post :: feed_entry where
  "example_post =
     \<lparr>entry_post = Some \<lparr>post_record = Some \<lparr>rec_text = Some ''Hello'',
                                               rec_createdAt = Some ''2024-01-15T10:30:00Z''\<rparr>,
                          post_uri = Some ''at://did:plc:abc/app.bsky.feed.post/xyz123'',
                          likeCount = Some 3, repostCount = None, replyCount = None,
                          quoteCount = None\<rparr>\<rparr>"

text \<open>
  The shape \<open>YYYY-MM-DD HH:MM:SS UTC\<close> as a pattern: a \<open>9\<close> in the pattern stands for
  any decimal digit, every other character for itself.
\<close>

fun matches_pattern :: "string \<Rightarrow> string \<Rightarrow> bool" where
  "matches_pattern [] [] = True"
| "matches_pattern (p # ps) (c # cs) =
     ((if p = CHR ''9'' then is_digit c else c = p) \<and> matches_pattern ps cs)"
| "matches_pattern [] (c # cs) = False"
| "matches_pattern (p # ps) [] = False"

text \<open>An entry whose \<^verbatim>\<open>createdAt\<close> is not an ISO timestamp.\<close>

definition undated_post :: feed_entry where
  "undated_post =
     \<lparr>entry_post = Some \<lparr>post_record = Some \<lparr>rec_text = None,
                                               rec_createdAt = Some ''yesterday''\<rparr>,
                          post_uri = None, likeCount = None, repostCount = None,
                          replyCount = None, quoteCount = None\<rparr>\<rparr>"

text \<open>
  For the statements about the formatter: the header line, one summary whose first line
  needs quoting, the text of a JSON report without posts, and an upstream whose profile
  lookup succeeds and whose feed is empty.
\<close>

definition header_line :: string where
  "header_line = ''handle,post_date,post_url,first_line,likes,reposts,replies,quotes,uri''
                   @ [CHR 0x0D, CHR 0x0A]"

definition example_summary :: summary where
  "example_summary =
     \<lparr>sum_handle = ''alice.bsky.social'', sum_post_date = ''2024-01-15 10:30:00 UTC'',
      sum_post_url = ''https://bsky.app/profile/alice.bsky.social/post/xyz123'',
      sum_first_line = ''Hello, world'', sum_likes = 3, sum_reposts = 0, sum_replies = 0,
      sum_quotes = 0, sum_uri = ''at://did:plc:abc/app.bsky.feed.post/xyz123''\<rparr>"

definition empty_report_text :: "string \<Rightarrow> string \<Rightarrow> string \<Rightarrow> string" where
  "empty_report_text did handle generated_at =
     (let q = [CHR 0x22]; nl = [CHR 0x0A]
      in ''{'' @ nl
         @ ''  '' @ q @ ''did'' @ q @ '': '' @ json_string did @ '','' @ nl
         @ ''  '' @ q @ ''handle'' @ q @ '': '' @ json_string handle @ '','' @ nl
         @ ''  '' @ q @ ''post_count'' @ q @ '': 0,'' @ nl
         @ ''  '' @ q @ ''generated_at'' @ q @ '': '' @ json_string generated_at @ '','' @ nl
         @ ''  '' @ q @ ''posts'' @ q @ '': []'' @ nl
         @ ''}'')"

definition alice_profile :: "unit \<Rightarrow> string \<Rightarrow> profile_response \<times> unit" where
  "alice_profile s a = (Profile (Some ''alice.bsky.social''), s)"

definition empty_feed :: "(unit, feed_entry) upstream" where
  "empty_feed s req = (Page [] None, s)"

text \<open>
  A timestamp before the year 1000 and an entry that carries it: 0999-01-15 10:30:00 UTC.
\<close>

definition long_ago :: datetime where
  "long_ago = \<lparr>year = 999, month = 1, day = 15, hour = 10, minute = 30, second = 0,
                microsecond = 0, utcoffset = Some 0\<rparr>"

definition ancient_post :: feed_entry where
  "ancient_post =
     \<lparr>entry_post = Some \<lparr>post_record = Some \<lparr>rec_text = None,
                                               rec_createdAt = Some ''0999-01-15T10:30:00Z''\<rparr>,
                          post_uri = None, likeCount = None, repostCount = None,
                          replyCount = None, quoteCount = None\<rparr>\<rparr>"

section \<open>Properties of the paginated fetcher\<close>

subsection \<open>One pass of the loop\<close>

lemma fetch_loop_done:
  "\<not> int (length posts) < lim \<Longrightarrow> fetch_loop api did lim posts cur sent s = Inr (posts, sent, s)"
  by (subst fetch_loop.simps) simp

lemma fetch_loop_failed:
  "int (length posts) < lim \<Longrightarrow>
   api s (page_request did lim (length posts) cur) = (RequestFailed, s') \<Longrightarrow>
   fetch_loop api did lim posts cur sent s
     = Inr (posts, sent @ [page_request did lim (length posts) cur], s')"
  by (subst fetch_loop.simps) (simp add: Let_def)

lemma fetch_loop_uncaught:
  "int (length posts) < lim \<Longrightarrow>
   api s (page_request did lim (length posts) cur) = (OtherFailure, s') \<Longrightarrow>
   fetch_loop api did lim posts cur sent s = Inl UncaughtException"
  by (subst fetch_loop.simps) (simp add: Let_def)

lemma fetch_loop_empty_page:
  "int (length posts) < lim \<Longrightarrow>
   api s (page_request did lim (length posts) cur) = (Page [] cur', s') \<Longrightarrow>
   fetch_loop api did lim posts cur sent s
     = Inr (posts, sent @ [page_request did lim (length posts) cur], s')"
  by (subst fetch_loop.simps) (simp add: Let_def)

lemma fetch_loop_last_page:
  "int (length posts) < lim \<Longrightarrow>
   api s (page_request did lim (length posts) cur) = (Page feed cur', s') \<Longrightarrow>
   feed \<noteq> [] \<Longrightarrow> \<not> truthy cur' \<Longrightarrow>
   fetch_loop api did lim posts cur sent s
     = Inr (posts @ feed, sent @ [page_request did lim (length posts) cur], s')"
  by (subst fetch_loop.simps) (simp add: Let_def)

lemma fetch_loop_next_page:
  "int (length posts) < lim \<Longrightarrow>
   api s (page_request did lim (length posts) cur) = (Page feed cur', s') \<Longrightarrow>
   feed \<noteq> [] \<Longrightarrow> truthy cur' \<Longrightarrow>
   fetch_loop api did lim posts cur sent s
     = fetch_loop api did lim (posts @ feed) cur'
         (sent @ [page_request did lim (length posts) cur]) s'"
  by (subst fetch_loop.simps) (simp add: Let_def)

subsection \<open>Numerals and rounded-up division\<close>

lemma digit_val_digit_chars: "\<forall>d<10. digit_val (digit_char d) = d"
  by (simp add: eval_nat_numeral All_less_Suc digit_val_def digit_char_def)

lemma digit_val_digit_char: "d < 10 \<Longrightarrow> digit_val (digit_char d) = d"
  using digit_val_digit_chars by blast

lemma str_nat_one_digit: "n < 10 \<Longrightarrow> str_nat n = [digit_char n]"
  by (simp add: str_nat.simps [of n])

lemma str_nat_more_digits:
  "10 \<le> n \<Longrightarrow> str_nat n = str_nat (n div 10) @ [digit_char (n mod 10)]"
  by (simp add: str_nat.simps [of n])

lemma str_nat_nonempty: "str_nat n \<noteq> []"
  by (cases "n < 10") (simp_all add: str_nat_one_digit str_nat_more_digits)

lemma nat_of_str_snoc: "nat_of_str (s @ [c]) = 10 * nat_of_str s + digit_val c"
  by (simp add: nat_of_str_def)

lemma nat_of_str_str_nat: "nat_of_str (str_nat n) = n"
proof (induction n rule: less_induct)
  case (less n)
  consider (one) "n < 10" | (more) "10 \<le> n" by linarith
  then show ?case
  proof cases
    case one
    then show ?thesis
      by (simp add: str_nat_one_digit nat_of_str_def digit_val_digit_char)
  next
    case more
    then have "nat_of_str (str_nat (n div 10)) = n div 10" by (intro less.IH) simp
    with more show ?thesis
      by (simp add: str_nat_more_digits nat_of_str_snoc digit_val_digit_char)
  qed
qed

lemma ceil_div_0: "1 \<le> P \<Longrightarrow> ceil_div 0 P = 0"
  by (simp add: ceil_div_def)

lemma ceil_div_1: "1 \<le> a \<Longrightarrow> a \<le> P \<Longrightarrow> ceil_div a P = 1"
  by (simp add: ceil_div_def div_nat_eqI)

lemma ceil_div_step: "1 \<le> P \<Longrightarrow> P \<le> a \<Longrightarrow> ceil_div a P = Suc (ceil_div (a - P) P)"
proof -
  assume P: "1 \<le> P" "P \<le> a"
  have "a + P - 1 = (a - P + P - 1) + P" using P by simp
  then have "(a + P - 1) div P = (a - P + P - 1) div P + 1"
    using P by (metis div_add_self2 not_one_le_zero)
  then show ?thesis by (simp add: ceil_div_def)
qed

subsection \<open>The loop against the simulated feed\<close>

lemma cursor_offset_str_nat:
  "cursor_offset (if truthy (Some (str_nat n)) then Some (str_nat n) else None) = n"
  by (simp add: str_nat_nonempty cursor_offset_def nat_of_str_str_nat)

lemma page_size_eq:
  assumes "int off < L" and "1 \<le> P" and "P \<le> 100"
  shows "min P (nat (limit (page_request did L off cur))) = min P (nat L - off)"
proof -
  have "limit (page_request did L off cur) = min 100 (L - int off)"
    by (simp add: page_request_def)
  moreover have "nat (min 100 (L - int off)) = min 100 (nat L - off)"
    using assms(1) by linarith
  moreover have "min P (min 100 (nat L - off)) = min P (nat L - off)"
    using assms(3) by linarith
  ultimately show ?thesis by (simp only:)
qed

lemma sim_upstream_page:
  assumes "cursor_offset (if truthy cur then cur else None) = off"
    and "int off < L" and "1 \<le> P" and "P \<le> 100"
    and "page = take (min P (nat L - off)) (drop off entries)"
  shows "sim_upstream entries P e s (page_request did L off cur) =
     (Page page (if off + length page < length entries \<or> e
                 then Some (str_nat (off + length page)) else None), s)"
proof -
  have c: "cursor_offset (cursor (page_request did L off cur)) = off"
    using assms(1) by (simp add: page_request_def)
  show ?thesis
    unfolding sim_upstream_def Let_def c page_size_eq [OF assms(2-4)] assms(5) ..
qed

lemma fetch_result_intro:
  "r = Inr (acc, sent @ new, s) \<Longrightarrow> acc = acc' \<Longrightarrow> length new = n \<Longrightarrow>
   \<exists>new. r = Inr (acc', sent @ new, s) \<and> length new = n"
  by blast

lemma fetch_loop_sim:
  fixes entries :: "'e list"
  assumes P: "1 \<le> P" "P \<le> 100"
    and N: "N = length entries" and m: "m = min (nat L) N"
  shows "off \<le> m \<Longrightarrow>
         cursor_offset (if truthy cur then cur else None) = off \<Longrightarrow>
         \<exists>new. fetch_loop (sim_upstream entries P e) did L (take off entries) cur sent ()
                 = Inr (take m entries, sent @ new, ())
             \<and> length new = ceil_div (m - off) P
                   + (if N < nat L \<and> (e \<or> off = N) then 1 else 0)"
proof (induction "m - off" arbitrary: off cur sent rule: less_induct)
  case less
  let ?api = "sim_upstream entries P e"
  have mL: "m \<le> nat L" and mN: "m \<le> N" and mcases: "m = nat L \<or> m = N"
    using m by linarith+
  have offm: "off \<le> m" by (rule less.prems(1))
  define posts where "posts = take off entries"
  have len: "length posts = off" using offm mN N by (simp add: posts_def)
  show ?case unfolding posts_def [symmetric]
  proof (cases "int off < L")
    case False
    then have eq: "off = m" "nat L \<le> N" using offm mL mN mcases by linarith+
    have "fetch_loop ?api did L posts cur sent () = Inr (posts, sent @ [], ())"
      using False by (simp add: fetch_loop_done len)
    moreover have "posts = take m entries" using eq by (simp add: posts_def)
    moreover have "length ([]::request list) = ceil_div (m - off) P
        + (if N < nat L \<and> (e \<or> off = N) then 1 else 0)"
      using eq P by (simp add: ceil_div_0)
    ultimately show "\<exists>new. fetch_loop ?api did L posts cur sent ()
                 = Inr (take m entries, sent @ new, ())
             \<and> length new = ceil_div (m - off) P
                   + (if N < nat L \<and> (e \<or> off = N) then 1 else 0)"
      by (rule fetch_result_intro)
  next
    case guard: True
    then have guard': "int (length posts) < L" by (simp add: len)
    have offL: "off < nat L" using guard by linarith
    define page where "page = take (min P (nat L - off)) (drop off entries)"
    define params where "params = page_request did L (length posts) cur"
    have "length page = min (min P (nat L - off)) (N - off)"
      by (simp add: page_def N min.commute)
    also have "\<dots> = min P (m - off)" by (simp only: m min_diff min.assoc)
    finally have lpage: "length page = min P (m - off)" .
    define nxt where "nxt = off + length page"
    have resp: "?api () (page_request did L (length posts) cur) =
        (Page page (if nxt < N \<or> e then Some (str_nat nxt) else None), ())"
      unfolding len nxt_def N
      by (rule sim_upstream_page [OF less.prems(2) guard P page_def])
    have acc: "posts @ page = take nxt entries"
    proof -
      have "posts @ page = take (off + min P (nat L - off)) entries"
        by (simp add: posts_def page_def take_add)
      also have "\<dots> = take nxt entries"
      proof (cases "off + min P (nat L - off) \<le> N")
        case True
        then have "min P (nat L - off) = min P (m - off)" using mcases mL mN by linarith
        then show ?thesis by (simp only: nxt_def lpage)
      next
        case False
        then have "N \<le> off + min P (nat L - off)" "N \<le> nxt"
          unfolding nxt_def lpage using mcases mL mN offm by linarith+
        then show ?thesis by (simp add: N)
      qed
      finally show ?thesis .
    qed
    show "\<exists>new. fetch_loop ?api did L posts cur sent ()
                 = Inr (take m entries, sent @ new, ())
             \<and> length new = ceil_div (m - off) P
                   + (if N < nat L \<and> (e \<or> off = N) then 1 else 0)"
    proof (cases "off = N")
      case True
      then have empty: "page = []" by (simp add: page_def N)
      have nlt: "N < nat L" and mN': "m = N" using True offL offm mN by linarith+
      have "fetch_loop ?api did L posts cur sent () = Inr (posts, sent @ [params], ())"
        unfolding params_def
        by (rule fetch_loop_empty_page [OF guard']) (simp only: resp empty)
      moreover have "posts = take m entries" using True mN' by (simp add: posts_def)
      moreover have "length [params] = ceil_div (m - off) P
          + (if N < nat L \<and> (e \<or> off = N) then 1 else 0)"
        using True nlt mN' P by (simp add: ceil_div_0)
      ultimately show ?thesis by (rule fetch_result_intro)
    next
      case False
      then have offN: "off < N" and offm': "off < m"
        using offm mN mcases offL by linarith+
      have pos: "1 \<le> length page" using lpage offm' P by linarith
      have nonempty: "page \<noteq> []" using pos by auto
      have nxtm: "nxt \<le> m" using lpage offm' nxt_def by linarith
      show ?thesis
      proof (cases "nxt < N \<or> e")
        case nocur: False
        then have nxtN: "nxt = N" and ne: "\<not> e" using nxtm mN by auto
        have mN': "m = N" using nxtm nxtN mN by simp
        have "fetch_loop ?api did L posts cur sent ()
                = Inr (posts @ page, sent @ [params], ())"
          unfolding params_def
          by (rule fetch_loop_last_page [OF guard' _ nonempty, where cur' = None])
             (simp_all add: resp nocur)
        moreover have "posts @ page = take m entries"
          using acc nxtN mN' by simp
        moreover have "ceil_div (m - off) P = 1"
        proof (rule ceil_div_1)
          show "1 \<le> m - off" using offm' by simp
          show "m - off \<le> P" using lpage nxtN mN' nxt_def by linarith
        qed
        then have "length [params] = ceil_div (m - off) P
            + (if N < nat L \<and> (e \<or> off = N) then 1 else 0)"
          using ne False by simp
        ultimately show ?thesis by (rule fetch_result_intro)
      next
        case hascur: True
        let ?cur' = "Some (str_nat nxt)"
        have "fetch_loop ?api did L posts cur sent ()
            = fetch_loop ?api did L (posts @ page) ?cur' (sent @ [params]) ()"
          unfolding params_def
          by (rule fetch_loop_next_page [OF guard' _ nonempty])
             (simp_all add: resp hascur str_nat_nonempty)
        then have unfold: "fetch_loop ?api did L posts cur sent ()
            = fetch_loop ?api did L (take nxt entries) ?cur' (sent @ [params]) ()"
          by (simp only: acc)
        have dec: "m - nxt < m - off" using pos offm' nxtm nxt_def by linarith
        from less.hyps [OF dec nxtm cursor_offset_str_nat, of "sent @ [params]"]
        obtain new where new:
          "fetch_loop ?api did L (take nxt entries) ?cur' (sent @ [params]) ()
             = Inr (take m entries, (sent @ [params]) @ new, ())"
          "length new = ceil_div (m - nxt) P
             + (if N < nat L \<and> (e \<or> nxt = N) then 1 else 0)"
          by blast
        have count: "length (params # new) = ceil_div (m - off) P
            + (if N < nat L \<and> (e \<or> off = N) then 1 else 0)"
        proof (cases "P \<le> m - off")
          case True
          then have nP: "nxt = off + P" using lpage by (simp add: nxt_def)
          have "ceil_div (m - off) P = Suc (ceil_div (m - off - P) P)"
            using True P by (intro ceil_div_step) auto
          moreover have "m - nxt = m - off - P" using nP by simp
          moreover have "(e \<or> nxt = N) = e" using hascur by auto
          ultimately show ?thesis using new(2) False by simp
        next
          case small: False
          then have nm: "nxt = m" using lpage offm' by (simp add: nxt_def)
          have one: "ceil_div (m - off) P = 1"
            using small offm' by (intro ceil_div_1) auto
          have zero: "ceil_div (m - nxt) P = 0" using nm P by (simp add: ceil_div_0)
          show ?thesis
          proof (cases "N < nat L")
            case True
            then have "m = N" using mcases mL mN by linarith
            with nm hascur have e by auto
            with new(2) one zero True show ?thesis by simp
          next
            case False
            with new(2) one zero show ?thesis by simp
          qed
        qed
        have "fetch_loop ?api did L posts cur sent ()
                = Inr (take m entries, sent @ (params # new), ())"
          using unfold new(1) by simp
        from this refl count show ?thesis by (rule fetch_result_intro)
      qed
    qed
  qed
qed

subsection \<open>Runs of the loop\<close>

lemma fetched_posts:
  "fetched api did lim s0 feeds st \<Longrightarrow> fst st = concat feeds"
  by (induction rule: fetched.induct) simp_all

lemma fetched_sent:
  "fetched api did lim s0 feeds st \<Longrightarrow> length (fst (snd (snd st))) = length feeds"
  by (induction rule: fetched.induct) simp_all

lemma fetched_run:
  "fetched api did lim s0 feeds st \<Longrightarrow>
   fetch_user_posts api did lim s0
     = fetch_loop api did lim (fst st) (fst (snd st)) (fst (snd (snd st))) (snd (snd (snd st)))"
proof (induction rule: fetched.induct)
  case start
  show ?case by (simp add: fetch_user_posts_def)
next
  case (page feeds posts cur sent s feed cur' s')
  from page.hyps(2-5) have "fetch_loop api did lim posts cur sent s
      = fetch_loop api did lim (posts @ feed) cur'
          (sent @ [page_request did lim (length posts) cur]) s'"
    by (rule fetch_loop_next_page)
  with page.IH show ?case by simp
qed

text \<open>
  Claim C2. Whatever the identifier, the limit and the upstream: when the loop, having
  fetched the pages \<open>feeds\<close>, sends its next request and that request fails with a
  request error, the loop stops and \<^verbatim>\<open>fetch_user_posts\<close> returns normally (an
  \<open>Inr\<close> value, no exception reaches the caller) with exactly the entries of the pages
  fetched before the error, in order; the failed request is the last one sent.
\<close>

theorem fetch_user_posts_request_error:
  assumes "fetched api did lim s0 feeds (posts, cur, sent, s)"
    and "int (length posts) < lim"
    and "api s (page_request did lim (length posts) cur) = (RequestFailed, s')"
  shows "fetch_user_posts api did lim s0
           = Inr (concat feeds, sent @ [page_request did lim (length posts) cur], s')"
proof -
  have "fetch_user_posts api did lim s0 = fetch_loop api did lim posts cur sent s"
    using fetched_run [OF assms(1)] by simp
  also have "\<dots> = Inr (posts, sent @ [page_request did lim (length posts) cur], s')"
    using assms(2,3) by (rule fetch_loop_failed)
  finally show ?thesis using fetched_posts [OF assms(1)] by simp
qed

text \<open>A run against \<open>flaky_upstream\<close>: two pages, then the request error.\<close>

lemma flaky_fetched:
  "fetched flaky_upstream ''did:plc:abc'' 10 0 [[1, 2], [3]]
     ([1, 2, 3], Some ''c2'',
      [page_request ''did:plc:abc'' 10 0 None, page_request ''did:plc:abc'' 10 2 (Some ''c1'')], 2)"
proof -
  have 1: "fetched flaky_upstream ''did:plc:abc'' 10 0 ([] @ [[1, 2]])
     ([] @ [1, 2], Some ''c1'', [] @ [page_request ''did:plc:abc'' 10 (length ([]::nat list)) None], Suc 0)"
    by (rule fetched.page [OF fetched.start]) (simp_all add: flaky_upstream_def)
  have "fetched flaky_upstream ''did:plc:abc'' 10 0 (([] @ [[1, 2]]) @ [[3]])
     (([] @ [1, 2]) @ [3], Some ''c2'',
      ([] @ [page_request ''did:plc:abc'' 10 (length ([]::nat list)) None])
        @ [page_request ''did:plc:abc'' 10 (length ([] @ [1, 2::nat])) (Some ''c1'')], Suc (Suc 0))"
    by (rule fetched.page [OF 1]) (simp_all add: flaky_upstream_def)
  then show ?thesis by (simp add: numeral_2_eq_2)
qed

theorem fetch_user_posts_request_error_witness:
  "fetched flaky_upstream ''did:plc:abc'' 10 0 [[1, 2], [3]]
     ([1, 2, 3], Some ''c2'',
      [page_request ''did:plc:abc'' 10 0 None, page_request ''did:plc:abc'' 10 2 (Some ''c1'')], 2)
   \<and> int (length [1, 2, 3::nat]) < 10
   \<and> flaky_upstream 2 (page_request ''did:plc:abc'' 10 (length [1, 2, 3::nat]) (Some ''c2''))
        = (RequestFailed, 3)
   \<and> fetch_user_posts flaky_upstream ''did:plc:abc'' 10 0
        = Inr ([1, 2, 3],
               [page_request ''did:plc:abc'' 10 0 None,
                page_request ''did:plc:abc'' 10 2 (Some ''c1''),
                page_request ''did:plc:abc'' 10 3 (Some ''c2'')], 3)"
proof -
  have r: "flaky_upstream 2 (page_request ''did:plc:abc'' 10 (length [1, 2, 3::nat]) (Some ''c2''))
        = (RequestFailed, 3)"
    by (simp add: flaky_upstream_def)
  have l: "int (length [1, 2, 3::nat]) < 10" by simp
  from fetch_user_posts_request_error [OF flaky_fetched l r] flaky_fetched l r
  show ?thesis by (simp add: eval_nat_numeral)
qed

text \<open>
  Claim C10. For a limit of zero or less the guard \<^verbatim>\<open>len(posts) < limit\<close> fails on
  entry: the result is the empty list, no request is sent and the upstream's state is
  untouched.
\<close>

theorem fetch_user_posts_nonpositive_limit:
  "lim \<le> 0 \<Longrightarrow> fetch_user_posts api did lim s = Inr ([], [], s)"
  by (simp add: fetch_user_posts_def fetch_loop_done)

theorem fetch_user_posts_nonpositive_limit_witness:
  "(-3::int) \<le> 0 \<and> fetch_user_posts flaky_upstream ''did:plc:abc'' (-3) 0 = Inr ([], [], 0)"
  using fetch_user_posts_nonpositive_limit [of "-3" flaky_upstream "''did:plc:abc''" 0] by simp

text \<open>
  Claim C1. Against a simulated feed of \<open>N\<close> entries served in pages of at most \<open>P\<close>
  entries (\<open>1 \<le> P \<le> 100\<close>, the claim's case being \<open>P = 100\<close>) that honours the
  requested page limit, and for every limit \<open>L \<ge> 1\<close>: \<^verbatim>\<open>fetch_user_posts\<close> returns
  (the function is total, so the loop terminates) the first \<open>min L N\<close> entries of the feed
  in the feed's order, never more than \<open>L\<close>, after \<open>ceil (min L N / P)\<close> requests plus at
  most one terminating request. The terminating request is the one answered by an
  empty page: it is sent exactly when the feed is shorter than the limit and either the
  feed is empty or the upstream still hands out a cursor with its last entries.
\<close>

theorem fetch_user_posts_simulated_feed:
  assumes "1 \<le> L" and "1 \<le> P" and "P \<le> 100"
  shows "\<exists>sent. fetch_user_posts (sim_upstream entries P e) did L ()
                  = Inr (take (nat L) entries, sent, ())
           \<and> length (take (nat L) entries) = min (nat L) (length entries)
           \<and> int (length (take (nat L) entries)) \<le> L
           \<and> length sent = ceil_div (min (nat L) (length entries)) P
                + (if length entries < nat L \<and> (e \<or> entries = []) then 1 else 0)
           \<and> (length sent = ceil_div (min (nat L) (length entries)) P
                \<or> length sent = ceil_div (min (nat L) (length entries)) P + 1)"
proof -
  from fetch_loop_sim [OF assms(2,3) refl refl, of 0 L entries None e did "[]"]
  obtain new where new:
    "fetch_loop (sim_upstream entries P e) did L [] None [] ()
       = Inr (take (min (nat L) (length entries)) entries, new, ())"
    "length new = ceil_div (min (nat L) (length entries)) P
       + (if length entries < nat L \<and> (e \<or> 0 = length entries) then 1 else 0)"
    by (auto simp: cursor_offset_def)
  have "take (min (nat L) (length entries)) entries = take (nat L) entries"
    by (simp add: min_def)
  with new(1) have "fetch_user_posts (sim_upstream entries P e) did L ()
      = Inr (take (nat L) entries, new, ())"
    by (simp add: fetch_user_posts_def)
  moreover have "length (take (nat L) entries) = min (nat L) (length entries)"
    by (simp add: min.commute)
  moreover have "int (length (take (nat L) entries)) \<le> L" using assms(1) by simp
  moreover have "length new = ceil_div (min (nat L) (length entries)) P
       + (if length entries < nat L \<and> (e \<or> entries = []) then 1 else 0)"
    using new(2) by (simp add: eq_commute [of 0])
  moreover have "length new = ceil_div (min (nat L) (length entries)) P
       \<or> length new = ceil_div (min (nat L) (length entries)) P + 1"
    using new(2) by (simp split: if_splits)
  ultimately show ?thesis by blast
qed

theorem fetch_user_posts_simulated_feed_witness:
  "(1::int) \<le> 5 \<and> (1::nat) \<le> 100 \<and> (100::nat) \<le> 100 \<and>
   (\<exists>sent. fetch_user_posts (sim_upstream ''abc'' 100 True) ''did:plc:abc'' 5 ()
                  = Inr (''abc'', sent, ())
           \<and> length sent = 2) \<and>
   (1::int) \<le> 4 \<and> (1::nat) \<le> 2 \<and> (2::nat) \<le> 100 \<and>
   (\<exists>sent. fetch_user_posts (sim_upstream ''abcde'' 2 False) ''did:plc:abc'' 4 ()
                  = Inr (''abcd'', sent, ())
           \<and> length sent = 2)"
proof -
  have c1: "ceil_div (min (nat 5) (length ''abc'')) 100 = 1" by (simp add: ceil_div_def)
  have c2: "ceil_div (min (nat 4) (length ''abcde'')) 2 = 2" by (simp add: ceil_div_def)
  from fetch_user_posts_simulated_feed [of 5 100 "''abc''" True "''did:plc:abc''", unfolded c1]
    fetch_user_posts_simulated_feed [of 4 2 "''abcde''" False "''did:plc:abc''", unfolded c2]
  show ?thesis by (auto simp: numeral_2_eq_2)
qed

section \<open>Properties of the handle clean-up\<close>

lemma service_clean_handle_strip: "service_clean_handle h = clean_handle (str_strip h)"
  by (simp add: service_clean_handle_def clean_handle_def Let_def)

lemma clean_handle_spec: "clean_handle h = spec_normalize h"
  by (cases h) (auto simp: clean_handle_def spec_normalize_def startswith_def Let_def)

lemma startswith_did_not_at: "startswith d ''did:'' \<Longrightarrow> \<not> startswith d ''@''"
  by (cases d) (auto simp: startswith_def)

lemma clean_handle_did:
  "startswith d ''did:'' \<Longrightarrow>
   clean_handle d = (if CHR ''.'' \<in> set d then d else d @ ''.bsky.social'')"
  by (simp add: clean_handle_def startswith_did_not_at Let_def)

lemma startswith_append: "startswith d p \<longleftrightarrow> (\<exists>r. d = p @ r)"
  unfolding startswith_def
  by (metis append_eq_conv_conj append_take_drop_id)

lemma not_isspace_colon: "\<not> isspace CHR '':''" and not_isspace_d: "\<not> isspace CHR ''d''"
  and not_isspace_dot: "\<not> isspace CHR ''.''"
  by (simp_all add: isspace_def)

lemma str_strip_did:
  assumes "startswith d ''did:''"
  shows "startswith (str_strip d) ''did:''"
proof -
  from assms obtain r where d: "d = ''did:'' @ r" by (auto simp: startswith_append)
  have 1: "dropWhile isspace d = d" by (simp add: d not_isspace_d)
  have "\<exists>xs. dropWhile isspace (rev r @ '':did'') = xs @ '':did''"
    by (cases "\<forall>x \<in> set (rev r). isspace x")
       (auto simp: dropWhile_append not_isspace_colon dropWhile_append3)
  then obtain xs where "dropWhile isspace (rev d) = xs @ '':did''" by (auto simp: d)
  then have "str_strip d = ''did:'' @ rev xs" by (simp add: str_strip_def 1)
  then show ?thesis by (simp add: startswith_def)
qed

lemma in_set_str_strip:
  assumes "\<not> isspace c"
  shows "c \<in> set (str_strip s) \<longleftrightarrow> c \<in> set s"
proof -
  have dw: "c \<in> set (dropWhile isspace xs) \<longleftrightarrow> c \<in> set xs" for xs
    using assms by (induction xs) auto
  show ?thesis by (simp add: str_strip_def dw)
qed

text \<open>
  Claim C3 says that an input starting with \<open>did:\<close> is passed through unchanged. Neither
  clean-up exempts DIDs: a \<open>did:plc\<close> identifier has no dot, so the default suffix is
  appended to it.
\<close>

theorem did_normalization_counterexample:
  "startswith ''did:plc:z72i7hdynmk6r22z27h6tvur'' ''did:''
   \<and> service_clean_handle ''did:plc:z72i7hdynmk6r22z27h6tvur''
       = ''did:plc:z72i7hdynmk6r22z27h6tvur.bsky.social''
   \<and> clean_handle ''did:plc:z72i7hdynmk6r22z27h6tvur''
       = ''did:plc:z72i7hdynmk6r22z27h6tvur.bsky.social''"
  by (simp add: service_clean_handle_def clean_handle_def str_strip_def isspace_def
      startswith_def Let_def)

text \<open>
  Claim C3, amended. For an input that starts with \<open>did:\<close> no \<open>@\<close> is stripped, and
  the suffix \<open>.bsky.social\<close> is appended exactly when the input has no dot. So the
  helper script leaves the input unchanged if and only if it contains a dot; the web
  service, which trims white space first, if and only if it contains a dot and has no
  white space to trim. The reporter, which takes a DID, sends it as it is.
\<close>

theorem did_normalization:
  assumes "startswith d ''did:''"
  shows "clean_handle d = (if CHR ''.'' \<in> set d then d else d @ ''.bsky.social'')
       \<and> service_clean_handle d
           = (if CHR ''.'' \<in> set d then str_strip d else str_strip d @ ''.bsky.social'')
       \<and> (clean_handle d = d \<longleftrightarrow> CHR ''.'' \<in> set d)
       \<and> (service_clean_handle d = d \<longleftrightarrow> CHR ''.'' \<in> set d \<and> str_strip d = d)
       \<and> reporter_profile_actor d = d"
proof -
  have a: "clean_handle d = (if CHR ''.'' \<in> set d then d else d @ ''.bsky.social'')"
    using assms by (rule clean_handle_did)
  have "service_clean_handle d
      = (if CHR ''.'' \<in> set (str_strip d) then str_strip d else str_strip d @ ''.bsky.social'')"
    unfolding service_clean_handle_strip using str_strip_did [OF assms] by (rule clean_handle_did)
  then have b: "service_clean_handle d
      = (if CHR ''.'' \<in> set d then str_strip d else str_strip d @ ''.bsky.social'')"
    by (simp add: in_set_str_strip not_isspace_dot)
  have c: "clean_handle d = d \<longleftrightarrow> CHR ''.'' \<in> set d" by (simp add: a)
  have e: "service_clean_handle d = d \<longleftrightarrow> CHR ''.'' \<in> set d \<and> str_strip d = d"
  proof (cases "CHR ''.'' \<in> set d")
    case True
    then show ?thesis by (simp add: b)
  next
    case False
    have "str_strip d @ ''.bsky.social'' \<noteq> d"
    proof
      assume "str_strip d @ ''.bsky.social'' = d"
      then have "CHR ''.'' \<in> set d" by (metis in_set_conv_decomp)
      with False show False ..
    qed
    with False show ?thesis by (simp add: b)
  qed
  from a b c e show ?thesis by (simp add: reporter_profile_actor_def)
qed

theorem did_normalization_witness:
  "startswith ''did:web:example.com'' ''did:''
   \<and> clean_handle ''did:web:example.com'' = ''did:web:example.com''
   \<and> service_clean_handle ''did:web:example.com'' = ''did:web:example.com''
   \<and> reporter_profile_actor ''did:web:example.com'' = ''did:web:example.com''
   \<and> startswith ''did:plc:abc'' ''did:''
   \<and> clean_handle ''did:plc:abc'' = ''did:plc:abc.bsky.social''
   \<and> service_clean_handle ''did:plc:abc'' = ''did:plc:abc.bsky.social''
   \<and> reporter_profile_actor ''did:plc:abc'' = ''did:plc:abc''"
proof -
  have h: "startswith ''did:web:example.com'' ''did:''" by (simp add: startswith_def)
  have k: "startswith ''did:plc:abc'' ''did:''" by (simp add: startswith_def)
  have s: "str_strip ''did:web:example.com'' = ''did:web:example.com''"
    "str_strip ''did:plc:abc'' = ''did:plc:abc''"
    by (simp_all add: str_strip_def isspace_def)
  from did_normalization [OF h] did_normalization [OF k] h k show ?thesis by (simp add: s)
qed

text \<open>
  Claim C4 describes the clean-up as stripping one leading \<open>@\<close> and appending the
  suffix when no dot remains. The web service trims surrounding white space before that,
  so on an input with a leading blank it differs from the rule as stated.
\<close>

theorem handle_normalization_counterexample:
  "\<not> startswith '' alice'' ''did:''
   \<and> service_clean_handle '' alice'' = ''alice.bsky.social''
   \<and> spec_normalize '' alice'' = '' alice.bsky.social''
   \<and> service_clean_handle '' alice'' \<noteq> spec_normalize '' alice''"
  by (simp add: service_clean_handle_def spec_normalize_def str_strip_def isspace_def
      startswith_def Let_def)

text \<open>
  Claim C4, amended. For every handle string (DID or not) the helper script's clean-up is
  the stated rule: one leading \<open>@\<close> is stripped, then \<open>.bsky.social\<close> is appended if and
  only if what remains has no dot. The web service applies the same rule to its input
  with surrounding white space trimmed. Both send \<open>alice\<close> as \<open>alice.bsky.social\<close> and
  \<open>@bob.example.com\<close> as \<open>bob.example.com\<close>.
\<close>

theorem handle_normalization:
  "clean_handle h = spec_normalize h
   \<and> service_clean_handle h = spec_normalize (str_strip h)
   \<and> clean_handle ''alice'' = ''alice.bsky.social''
   \<and> clean_handle ''@bob.example.com'' = ''bob.example.com''
   \<and> service_clean_handle ''alice'' = ''alice.bsky.social''
   \<and> service_clean_handle ''@bob.example.com'' = ''bob.example.com''"
proof -
  have "clean_handle ''alice'' = ''alice.bsky.social''"
    and "clean_handle ''@bob.example.com'' = ''bob.example.com''"
    by (simp_all add: clean_handle_def startswith_def Let_def)
  moreover have "service_clean_handle ''alice'' = ''alice.bsky.social''"
    and "service_clean_handle ''@bob.example.com'' = ''bob.example.com''"
    by (simp_all add: service_clean_handle_def str_strip_def isspace_def startswith_def Let_def)
  ultimately show ?thesis
    by (simp only: clean_handle_spec service_clean_handle_strip simp_thms)
qed

theorem handle_normalization_witness:
  "clean_handle ''@carol'' = ''carol.bsky.social''
   \<and> service_clean_handle '' @carol '' = ''carol.bsky.social''
   \<and> clean_handle '' @carol '' = '' @carol .bsky.social''"
proof -
  have "str_strip '' @carol '' = ''@carol''" by (simp add: str_strip_def isspace_def)
  with handle_normalization [of "''@carol''"] handle_normalization [of "'' @carol ''"]
  show ?thesis by (simp add: spec_normalize_def)
qed

section \<open>Properties of the summary projector\<close>

lemma split_from_nonempty: "split_from sep cur s \<noteq> []"
  by (induction s arbitrary: cur) auto

lemma last_split_from:
  "last (split_from sep cur s)
     = (if sep \<in> set s then rev (takeWhile (\<lambda>c. c \<noteq> sep) (rev s)) else cur @ s)"
proof (induction s arbitrary: cur)
  case Nil
  show ?case by simp
next
  case (Cons c cs)
  show ?case
  proof (cases "c = sep")
    case True
    then show ?thesis
      by (simp add: Cons.IH split_from_nonempty takeWhile_append)
  next
    case False
    then show ?thesis
      by (auto simp: Cons.IH takeWhile_append)
  qed
qed

lemma post_id_of_final_segment: "post_id_of u = final_segment u"
proof (cases "CHR ''/'' \<in> set u")
  case True
  then show ?thesis
    by (auto simp: post_id_of_def final_segment_def str_split_def last_split_from)
next
  case False
  then have "takeWhile (\<lambda>c. c \<noteq> CHR ''/'') (rev u) = rev u"
    by (intro takeWhile_eq_all_conv [THEN iffD2]) auto
  then have "final_segment u = u" by (simp only: final_segment_def rev_rev_ident)
  moreover have "post_id_of u = u"
    using False by (simp add: post_id_of_def str_split_def last_split_from)
  ultimately show ?thesis by simp
qed

lemma final_segment_no_slash: "CHR ''/'' \<notin> set (final_segment u)"
  using set_takeWhileD [of "CHR ''/''" "\<lambda>c. c \<noteq> CHR ''/''" "rev u"]
  by (auto simp: final_segment_def)

lemma final_segment_suffix:
  "\<exists>pre. u = pre @ final_segment u \<and> (pre = [] \<or> last pre = CHR ''/'')"
proof -
  let ?P = "\<lambda>c. c \<noteq> CHR ''/''"
  have "rev u = takeWhile ?P (rev u) @ dropWhile ?P (rev u)" by simp
  then have "rev (rev u) = rev (takeWhile ?P (rev u) @ dropWhile ?P (rev u))" by simp
  then have "u = rev (dropWhile ?P (rev u)) @ final_segment u"
    by (simp only: rev_rev_ident rev_append final_segment_def)
  moreover have "rev (dropWhile ?P (rev u)) = [] \<or> last (rev (dropWhile ?P (rev u))) = CHR ''/''"
  proof (cases "dropWhile ?P (rev u)")
    case Nil
    then show ?thesis by simp
  next
    case (Cons a as)
    then have "\<not> ?P a" by (simp add: dropWhile_eq_Cons_conv)
    with Cons show ?thesis by simp
  qed
  ultimately show ?thesis by blast
qed

lemma extract_post_url:
  "sum_post_url (extract_post_summary fromisoformat post_data handle) =
     (if final_segment (entry_uri post_data) \<noteq> [] \<and> handle \<noteq> ''Unknown''
      then ''https://bsky.app/profile/'' @ handle @ ''/post/'' @ final_segment (entry_uri post_data)
      else [])"
  by (simp add: extract_post_summary_def Let_def entry_uri_def post_id_of_final_segment)

lemma service_extract_post_url:
  "sum_post_url (service_extract_post_summary fromisoformat now post_data handle) =
     (if final_segment (entry_uri post_data) \<noteq> [] \<and> handle \<noteq> []
      then ''https://bsky.app/profile/'' @ handle @ ''/post/'' @ final_segment (entry_uri post_data)
      else [])"
  by (simp add: service_extract_post_summary_def Let_def entry_uri_def post_id_of_final_segment
      split: prod.splits option.splits)

lemma example_post_segment: "final_segment (entry_uri example_post) = ''xyz123''"
  by (simp add: example_post_def entry_uri_def get_or_def final_segment_def)

text \<open>
  Claim C7. The short ID is the final \<open>/\<close>-separated segment of the entry's URI: what
  follows the last \<open>/\<close>, itself free of \<open>/\<close>. The post URL is
  \<open>https://bsky.app/profile/<handle>/post/<shortID>\<close> if the short ID is non-empty and the
  handle is known, and the empty string otherwise; a known handle is, for the reporter,
  one other than the \<open>Unknown\<close> it substitutes for a failed lookup, and for the web
  service a non-empty one. For the URI \<open>at://did:plc:abc/app.bsky.feed.post/xyz123\<close> and
  the handle \<open>alice.bsky.social\<close> both give
  \<open>https://bsky.app/profile/alice.bsky.social/post/xyz123\<close>.
\<close>

theorem post_url_canonical:
  "sum_post_url (extract_post_summary fromisoformat post_data handle) =
     (if final_segment (entry_uri post_data) \<noteq> [] \<and> handle \<noteq> ''Unknown''
      then ''https://bsky.app/profile/'' @ handle @ ''/post/'' @ final_segment (entry_uri post_data)
      else [])
   \<and> sum_post_url (service_extract_post_summary fromisoformat now post_data handle) =
     (if final_segment (entry_uri post_data) \<noteq> [] \<and> handle \<noteq> []
      then ''https://bsky.app/profile/'' @ handle @ ''/post/'' @ final_segment (entry_uri post_data)
      else [])
   \<and> CHR ''/'' \<notin> set (final_segment (entry_uri post_data))
   \<and> (\<exists>pre. entry_uri post_data = pre @ final_segment (entry_uri post_data)
              \<and> (pre = [] \<or> last pre = CHR ''/''))
   \<and> entry_uri example_post = ''at://did:plc:abc/app.bsky.feed.post/xyz123''
   \<and> sum_post_url (extract_post_summary fromisoformat example_post ''alice.bsky.social'')
       = ''https://bsky.app/profile/alice.bsky.social/post/xyz123''
   \<and> sum_post_url (service_extract_post_summary fromisoformat now example_post
                      ''alice.bsky.social'')
       = ''https://bsky.app/profile/alice.bsky.social/post/xyz123''"
proof -
  have a: "entry_uri example_post = ''at://did:plc:abc/app.bsky.feed.post/xyz123''"
    by (simp add: example_post_def entry_uri_def get_or_def)
  have b: "sum_post_url (extract_post_summary fromisoformat example_post ''alice.bsky.social'')
       = ''https://bsky.app/profile/alice.bsky.social/post/xyz123''"
    by (simp add: extract_post_url example_post_segment)
  have c: "sum_post_url (service_extract_post_summary fromisoformat now example_post
                      ''alice.bsky.social'')
       = ''https://bsky.app/profile/alice.bsky.social/post/xyz123''"
    by (simp add: service_extract_post_url example_post_segment)
  show ?thesis
    by (intro conjI extract_post_url service_extract_post_url final_segment_no_slash
        final_segment_suffix a b c)
qed

theorem post_url_canonical_witness:
  "sum_post_url (extract_post_summary fromisoformat_model example_post ''Unknown'') = []
   \<and> sum_post_url (service_extract_post_summary fromisoformat_model half_past_ten example_post
                      ''Unknown'')
       = ''https://bsky.app/profile/Unknown/post/xyz123''
   \<and> sum_post_url (service_extract_post_summary fromisoformat_model half_past_ten example_post
                      [])
       = []"
  using post_url_canonical [of fromisoformat_model example_post "''Unknown''" half_past_ten]
    post_url_canonical [of fromisoformat_model example_post "[]" half_past_ten]
  by (simp add: final_segment_def)

section \<open>Properties of the timestamp formatting\<close>

subsection \<open>Digits and widths\<close>

lemma is_digit_digit_chars: "\<forall>d<10. is_digit (digit_char d)"
  by (simp add: eval_nat_numeral All_less_Suc is_digit_def digit_char_def)

lemma is_digit_digit_char: "d < 10 \<Longrightarrow> is_digit (digit_char d)"
  using is_digit_digit_chars by blast

lemma str_nat_digits: "list_all is_digit (str_nat n)"
proof (induction n rule: less_induct)
  case (less n)
  consider (one) "n < 10" | (more) "10 \<le> n" by linarith
  then show ?case
  proof cases
    case one
    then show ?thesis by (simp add: str_nat_one_digit is_digit_digit_char)
  next
    case more
    then have "list_all is_digit (str_nat (n div 10))" by (intro less.IH) simp
    with more show ?thesis by (simp add: str_nat_more_digits is_digit_digit_char)
  qed
qed

lemma length_str_nat: "n < 10 ^ k \<Longrightarrow> 0 < k \<Longrightarrow> length (str_nat n) \<le> k"
proof (induction k arbitrary: n)
  case 0
  then show ?case by simp
next
  case (Suc k)
  consider (one) "n < 10" | (more) "10 \<le> n" by linarith
  then show ?case
  proof cases
    case one
    then show ?thesis by (simp add: str_nat_one_digit)
  next
    case more
    with Suc.prems(1) have k: "0 < k" by (cases k) auto
    from Suc.prems(1) have "n div 10 < 10 ^ k"
      by (simp add: less_mult_imp_div_less mult.commute)
    then have "length (str_nat (n div 10)) \<le> k" using k by (rule Suc.IH)
    with more show ?thesis by (simp add: str_nat_more_digits)
  qed
qed

lemma zfill_digits:
  assumes "n < 10 ^ k" and "0 < k"
  shows "length (zfill k (str_nat n)) = k \<and> list_all is_digit (zfill k (str_nat n))"
proof -
  have "length (str_nat n) \<le> k" using assms by (rule length_str_nat)
  moreover have "is_digit CHR ''0''" by (simp add: is_digit_def)
  moreover have "\<forall>c \<in> set (str_nat n). is_digit c"
    using str_nat_digits [of n] by (simp add: list_all_iff)
  ultimately show ?thesis by (auto simp: zfill_def list_all_iff)
qed

lemma two_digits:
  assumes "length s = 2" and "list_all is_digit s"
  obtains a b where "s = [a, b]" and "is_digit a" and "is_digit b"
proof -
  from assms(1) obtain a b where "s = [a, b]"
    by (auto simp: length_Suc_conv eval_nat_numeral)
  with assms(2) that show ?thesis by simp
qed

lemma four_digits:
  assumes "length s = 4" and "list_all is_digit s"
  obtains a b c d where "s = [a, b, c, d]" and "is_digit a" and "is_digit b"
    and "is_digit c" and "is_digit d"
proof -
  from assms(1) obtain a b c d where "s = [a, b, c, d]"
    by (auto simp: length_Suc_conv eval_nat_numeral)
  with assms(2) that show ?thesis by simp
qed

lemma length_str_nat_lower: "10 ^ k \<le> n \<Longrightarrow> k < length (str_nat n)"
proof (induction k arbitrary: n)
  case 0
  have "str_nat n \<noteq> []" by (rule str_nat_nonempty)
  then show ?case by simp
next
  case (Suc k)
  have "(10::nat) \<le> 10 * 10 ^ k" by simp
  moreover from Suc.prems have "10 * 10 ^ k \<le> n" by simp
  ultimately have more: "10 \<le> n" by linarith
  from Suc.prems have "10 ^ k \<le> n div 10" by (simp add: less_eq_div_iff_mult_less_eq mult.commute)
  then have "k < length (str_nat (n div 10))" by (rule Suc.IH)
  with more show ?case by (simp add: str_nat_more_digits)
qed

lemma year_digits:
  assumes "y \<le> 9999"
  shows "length (str_nat y) = 4 \<longleftrightarrow> 1000 \<le> y"
proof
  assume four: "length (str_nat y) = 4"
  show "1000 \<le> y"
  proof (rule ccontr)
    assume "\<not> 1000 \<le> y"
    then have "y < 10 ^ 3" by simp
    then have "length (str_nat y) \<le> 3" by (rule length_str_nat) simp
    with four show False by simp
  qed
next
  assume "1000 \<le> y"
  then have "10 ^ 3 \<le> y" by simp
  then have "3 < length (str_nat y)" by (rule length_str_nat_lower)
  moreover from assms have "y < 10 ^ 4" by simp
  then have "length (str_nat y) \<le> 4" by (rule length_str_nat) simp
  ultimately show "length (str_nat y) = 4" by simp
qed

lemma matches_pattern_length: "matches_pattern p s \<Longrightarrow> length p = length s"
  by (induction p s rule: matches_pattern.induct) simp_all

lemma day_two_digits:
  assumes "valid_datetime dt"
  shows "day dt < 10 ^ 2"
proof -
  from assms have "day dt \<le> days_in_month (year dt) (month dt)"
    by (simp add: valid_datetime_def)
  moreover have "days_in_month (year dt) (month dt) \<le> 31"
  proof -
    have "\<forall>m<13. days_in_month y m \<le> 31" for y
      by (simp add: eval_nat_numeral All_less_Suc days_in_month_def)
    moreover have "days_in_month y m = 0" if "\<not> m < 13" for y m
      using that by (simp add: days_in_month_def)
    ultimately show ?thesis by (cases "month dt < 13") auto
  qed
  ultimately show ?thesis by simp
qed

subsection \<open>The shape of the written date\<close>

lemma strftime_utc_shape:
  assumes "valid_datetime dt"
  shows "matches_pattern ''9999-99-99 99:99:99 UTC'' (strftime_utc dt) \<longleftrightarrow> 1000 \<le> year dt"
proof -
  from assms have r: "year dt \<le> 9999" "month dt < 10 ^ 2" "hour dt < 10 ^ 2"
    "minute dt < 10 ^ 2" "second dt < 10 ^ 2"
    by (simp_all add: valid_datetime_def)
  have d: "day dt < 10 ^ 2" using assms by (rule day_two_digits)
  obtain m1 m2 where m: "zfill 2 (str_nat (month dt)) = [m1, m2]" "is_digit m1" "is_digit m2"
    using zfill_digits [OF r(2)] by (auto elim: two_digits)
  obtain d1 d2 where dd: "zfill 2 (str_nat (day dt)) = [d1, d2]" "is_digit d1" "is_digit d2"
    using zfill_digits [OF d] by (auto elim: two_digits)
  obtain h1 h2 where h: "zfill 2 (str_nat (hour dt)) = [h1, h2]" "is_digit h1" "is_digit h2"
    using zfill_digits [OF r(3)] by (auto elim: two_digits)
  obtain n1 n2 where n: "zfill 2 (str_nat (minute dt)) = [n1, n2]" "is_digit n1" "is_digit n2"
    using zfill_digits [OF r(4)] by (auto elim: two_digits)
  obtain s1 s2 where s: "zfill 2 (str_nat (second dt)) = [s1, s2]" "is_digit s1" "is_digit s2"
    using zfill_digits [OF r(5)] by (auto elim: two_digits)
  have written: "strftime_utc dt = str_nat (year dt)
      @ [CHR ''-'', m1, m2, CHR ''-'', d1, d2, CHR '' '', h1, h2, CHR '':'', n1, n2,
         CHR '':'', s1, s2, CHR '' '', CHR ''U'', CHR ''T'', CHR ''C'']"
    by (simp add: strftime_utc_def m dd h n s)
  show ?thesis
  proof
    assume "matches_pattern ''9999-99-99 99:99:99 UTC'' (strftime_utc dt)"
    then have "length ''9999-99-99 99:99:99 UTC'' = length (strftime_utc dt)"
      by (rule matches_pattern_length)
    then have "length (str_nat (year dt)) = 4" by (simp add: written)
    then show "1000 \<le> year dt" by (simp add: year_digits [OF r(1)])
  next
    assume "1000 \<le> year dt"
    then have "length (str_nat (year dt)) = 4" by (simp add: year_digits [OF r(1)])
    then obtain y1 y2 y3 y4 where y: "str_nat (year dt) = [y1, y2, y3, y4]"
      "is_digit y1" "is_digit y2" "is_digit y3" "is_digit y4"
      using str_nat_digits [of "year dt"] by (auto elim: four_digits)
    show "matches_pattern ''9999-99-99 99:99:99 UTC'' (strftime_utc dt)"
      by (simp add: written y m dd h n s)
  qed
qed

lemma month_abbr_letters:
  "\<forall>m<13. 1 \<le> m \<longrightarrow>
     (\<exists>a b c. month_abbr m = [a, b, c] \<and> a \<noteq> CHR ''9'' \<and> b \<noteq> CHR ''9'' \<and> c \<noteq> CHR ''9'')"
  by (simp add: eval_nat_numeral All_less_Suc month_abbr_def)

lemma strftime_short_shape:
  assumes "valid_datetime dt"
  shows "matches_pattern (month_abbr (month dt) @ '' 99, 9999'') (strftime_short dt)
           \<longleftrightarrow> 1000 \<le> year dt"
proof -
  from assms have r: "year dt \<le> 9999" "1 \<le> month dt" "month dt < 13"
    by (simp_all add: valid_datetime_def)
  have d: "day dt < 10 ^ 2" using assms by (rule day_two_digits)
  obtain d1 d2 where dd: "zfill 2 (str_nat (day dt)) = [d1, d2]" "is_digit d1" "is_digit d2"
    using zfill_digits [OF d] by (auto elim: two_digits)
  obtain a b c where abbr: "month_abbr (month dt) = [a, b, c]"
    "a \<noteq> CHR ''9''" "b \<noteq> CHR ''9''" "c \<noteq> CHR ''9''"
    using month_abbr_letters r(2,3) by blast
  have written: "strftime_short dt
      = [a, b, c, CHR '' '', d1, d2, CHR '','', CHR '' ''] @ str_nat (year dt)"
    by (simp add: strftime_short_def abbr dd)
  show ?thesis
  proof
    assume "matches_pattern (month_abbr (month dt) @ '' 99, 9999'') (strftime_short dt)"
    then have "length (month_abbr (month dt) @ '' 99, 9999'') = length (strftime_short dt)"
      by (rule matches_pattern_length)
    then have "length (str_nat (year dt)) = 4" by (simp add: written abbr)
    then show "1000 \<le> year dt" by (simp add: year_digits [OF r(1)])
  next
    assume "1000 \<le> year dt"
    then have "length (str_nat (year dt)) = 4" by (simp add: year_digits [OF r(1)])
    then obtain y1 y2 y3 y4 where y: "str_nat (year dt) = [y1, y2, y3, y4]"
      "is_digit y1" "is_digit y2" "is_digit y3" "is_digit y4"
      using str_nat_digits [of "year dt"] by (auto elim: four_digits)
    show "matches_pattern (month_abbr (month dt) @ '' 99, 9999'') (strftime_short dt)"
      by (simp add: written y abbr dd)
  qed
qed

subsection \<open>What the projector writes\<close>

lemma extract_post_date:
  "sum_post_date (extract_post_summary fromisoformat post_data handle) =
     (case fromisoformat (str_replace (entry_created_at post_data) CHR ''Z'' ''+00:00'') of
        Some dt \<Rightarrow> strftime_utc dt
      | None \<Rightarrow> entry_created_at post_data)"
  by (simp add: extract_post_summary_def Let_def entry_created_at_def format_date_def
      split: option.splits)

lemma service_extract_dates:
  "(sum_post_date (service_extract_post_summary fromisoformat now post_data handle),
    sum_relative_date (service_extract_post_summary fromisoformat now post_data handle)) =
     (case fromisoformat (str_replace (entry_created_at post_data) CHR ''Z'' ''+00:00'') of
        Some dt \<Rightarrow> (strftime_utc dt, get_relative_time now dt)
      | None \<Rightarrow> (entry_created_at post_data, entry_created_at post_data))"
  by (simp add: service_extract_post_summary_def Let_def entry_created_at_def
      split: prod.splits option.splits)

lemma str_replace_append: "str_replace (s @ t) old new = str_replace s old new @ str_replace t old new"
  by (simp add: str_replace_def)

lemma str_replace_absent: "old \<notin> set s \<Longrightarrow> str_replace s old new = s"
  by (induction s) (auto simp: str_replace_def)

lemma str_replace_trailing_Z:
  "CHR ''Z'' \<notin> set s \<Longrightarrow> str_replace (s @ ''Z'') CHR ''Z'' ''+00:00'' = s @ ''+00:00''"
  by (simp add: str_replace_append str_replace_absent) (simp add: str_replace_def)

subsection \<open>Two timestamps, parsed and written\<close>

lemma parse_time_half_past_ten:
  "parse_isoformat_time ''10:30:00+00:00'' = Some ((10, 30, 0, 0), Some 0)"
proof -
  have t: "parse_hh_mm_ss_ff ''10:30:00'' = Some (10, 30, 0, 0)"
    by (simp add: parse_hh_mm_ss_ff_def Let_def parse_digits_def is_digit_def nat_of_str_def
        digit_val_def)
  have z: "parse_hh_mm_ss_ff ''00:00'' = Some (0, 0, 0, 0)"
    by (simp add: parse_hh_mm_ss_ff_def Let_def parse_digits_def is_digit_def nat_of_str_def
        digit_val_def)
  show ?thesis by (simp add: parse_isoformat_time_def find_char_def t z)
qed

lemma valid_half_past_ten: "valid_datetime half_past_ten"
  by (simp add: valid_datetime_def days_in_month_def half_past_ten_def)

lemma valid_long_ago: "valid_datetime long_ago"
  by (simp add: valid_datetime_def days_in_month_def long_ago_def)

lemma parse_half_past_ten:
  "fromisoformat_model ''2024-01-15T10:30:00+00:00'' = Some half_past_ten"
proof -
  have d: "parse_isoformat_date ''2024-01-15'' = Some (2024, 1, 15)"
    by (simp add: parse_isoformat_date_def parse_digits_def is_digit_def nat_of_str_def
        digit_val_def)
  have "fromisoformat_model ''2024-01-15T10:30:00+00:00'' =
      (let dt = \<lparr>year = 2024, month = 1, day = 15, hour = 10, minute = 30, second = 0,
                  microsecond = 0, utcoffset = Some 0\<rparr>
       in if valid_datetime dt then Some dt else None)"
    by (simp add: fromisoformat_model_def d parse_time_half_past_ten)
  with valid_half_past_ten show ?thesis by (simp add: half_past_ten_def)
qed

lemma parse_long_ago:
  "fromisoformat_model ''0999-01-15T10:30:00+00:00'' = Some long_ago"
proof -
  have d: "parse_isoformat_date ''0999-01-15'' = Some (999, 1, 15)"
    by (simp add: parse_isoformat_date_def parse_digits_def is_digit_def nat_of_str_def
        digit_val_def)
  have "fromisoformat_model ''0999-01-15T10:30:00+00:00'' =
      (let dt = \<lparr>year = 999, month = 1, day = 15, hour = 10, minute = 30, second = 0,
                  microsecond = 0, utcoffset = Some 0\<rparr>
       in if valid_datetime dt then Some dt else None)"
    by (simp add: fromisoformat_model_def d parse_time_half_past_ten)
  with valid_long_ago show ?thesis by (simp add: long_ago_def)
qed

lemma strftime_half_past_ten: "strftime_utc half_past_ten = ''2024-01-15 10:30:00 UTC''"
  by (simp add: strftime_utc_def half_past_ten_def zfill_def str_nat.simps digit_char_def)

lemma strftime_long_ago: "strftime_utc long_ago = ''999-01-15 10:30:00 UTC''"
  by (simp add: strftime_utc_def long_ago_def zfill_def str_nat.simps digit_char_def)

lemma parse_yesterday: "fromisoformat_model ''yesterday'' = None"
  by (simp add: fromisoformat_model_def parse_isoformat_date_def)

lemma example_post_created_at:
  "str_replace (entry_created_at example_post) CHR ''Z'' ''+00:00'' = ''2024-01-15T10:30:00+00:00''"
  by (simp add: example_post_def entry_created_at_def get_or_def str_replace_def)

lemma ancient_post_created_at:
  "entry_created_at ancient_post = ''0999-01-15T10:30:00Z''"
  "str_replace (entry_created_at ancient_post) CHR ''Z'' ''+00:00'' = ''0999-01-15T10:30:00+00:00''"
  by (simp_all add: ancient_post_def entry_created_at_def get_or_def str_replace_def)

lemma undated_post_created_at:
  "entry_created_at undated_post = ''yesterday''"
  "str_replace (entry_created_at undated_post) CHR ''Z'' ''+00:00'' = ''yesterday''"
  by (simp_all add: undated_post_def entry_created_at_def get_or_def str_replace_def)

subsection \<open>The formatted timestamp\<close>

text \<open>
  Claim C5 says that a \<^verbatim>\<open>createdAt\<close> value that parses is written as
  \<open>YYYY-MM-DD HH:MM:SS UTC\<close>. The year is written by \<^verbatim>\<open>%Y\<close>, which does not pad: the
  timestamp \<open>0999-01-15T10:30:00Z\<close> parses, and both projectors write
  \<open>999-01-15 10:30:00 UTC\<close>, which has three digits where the stated format has four.
\<close>

theorem created_at_formatting_counterexample:
  "entry_created_at ancient_post = ''0999-01-15T10:30:00Z''
   \<and> fromisoformat_model (str_replace ''0999-01-15T10:30:00Z'' CHR ''Z'' ''+00:00'')
       = Some long_ago
   \<and> sum_post_date (extract_post_summary fromisoformat_model ancient_post ''alice.bsky.social'')
       = ''999-01-15 10:30:00 UTC''
   \<and> sum_post_date (service_extract_post_summary fromisoformat_model half_past_ten ancient_post
                       ''alice.bsky.social'')
       = ''999-01-15 10:30:00 UTC''
   \<and> \<not> matches_pattern ''9999-99-99 99:99:99 UTC'' ''999-01-15 10:30:00 UTC''"
proof -
  have p: "fromisoformat_model (str_replace ''0999-01-15T10:30:00Z'' CHR ''Z'' ''+00:00'')
       = Some long_ago"
    using parse_long_ago by (simp add: str_replace_def)
  have a: "sum_post_date (extract_post_summary fromisoformat_model ancient_post
                            ''alice.bsky.social'')
       = ''999-01-15 10:30:00 UTC''"
    by (simp add: extract_post_date ancient_post_created_at(2) parse_long_ago strftime_long_ago)
  have b: "sum_post_date (service_extract_post_summary fromisoformat_model half_past_ten
                            ancient_post ''alice.bsky.social'')
       = ''999-01-15 10:30:00 UTC''"
    using service_extract_dates [of fromisoformat_model half_past_ten ancient_post
        "''alice.bsky.social''"]
    by (simp add: ancient_post_created_at(2) parse_long_ago strftime_long_ago)
  have c: "\<not> matches_pattern ''9999-99-99 99:99:99 UTC'' ''999-01-15 10:30:00 UTC''"
    by (simp add: is_digit_def)
  from ancient_post_created_at(1) p a b c show ?thesis by (intro conjI)
qed

text \<open>
  Claim C5, amended. The projector replaces \<open>Z\<close> by \<open>+00:00\<close> (so a trailing \<open>Z\<close> is read
  as the UTC designator) and parses the result. For whatever ISO parser the Python release
  provides: when the \<^verbatim>\<open>createdAt\<close> value parses, \<^verbatim>\<open>post_date\<close> is the parsed value
  written as \<open>Y-MM-DD HH:MM:SS UTC\<close>, the year in decimal without padding and every
  other field in two digits, so that it has the shape \<open>YYYY-MM-DD HH:MM:SS UTC\<close> exactly
  for the years from 1000 on; the web service's \<^verbatim>\<open>relative_date\<close> is the relative time
  of the parsed value. When parsing fails nothing is raised and \<^verbatim>\<open>post_date\<close>, and in
  the web service also \<^verbatim>\<open>relative_date\<close>, are the raw \<^verbatim>\<open>createdAt\<close> string. With any
  parser that accepts the common format, \<open>2024-01-15T10:30:00Z\<close> gives
  \<open>2024-01-15 10:30:00 UTC\<close>.
\<close>

theorem created_at_formatting:
  "(\<forall>dt. fromisoformat (str_replace (entry_created_at post_data) CHR ''Z'' ''+00:00'') = Some dt \<longrightarrow>
       sum_post_date (extract_post_summary fromisoformat post_data handle)
         = str_nat (year dt) @ ''-'' @ zfill 2 (str_nat (month dt)) @ ''-''
           @ zfill 2 (str_nat (day dt)) @ '' '' @ zfill 2 (str_nat (hour dt)) @ '':''
           @ zfill 2 (str_nat (minute dt)) @ '':'' @ zfill 2 (str_nat (second dt)) @ '' UTC''
     \<and> sum_post_date (service_extract_post_summary fromisoformat now post_data handle)
         = sum_post_date (extract_post_summary fromisoformat post_data handle)
     \<and> sum_relative_date (service_extract_post_summary fromisoformat now post_data handle)
         = get_relative_time now dt
     \<and> (valid_datetime dt \<longrightarrow>
          (matches_pattern ''9999-99-99 99:99:99 UTC''
             (sum_post_date (extract_post_summary fromisoformat post_data handle))
           \<longleftrightarrow> 1000 \<le> year dt)))
   \<and> (fromisoformat (str_replace (entry_created_at post_data) CHR ''Z'' ''+00:00'') = None \<longrightarrow>
       sum_post_date (extract_post_summary fromisoformat post_data handle)
         = entry_created_at post_data
     \<and> sum_post_date (service_extract_post_summary fromisoformat now post_data handle)
         = entry_created_at post_data
     \<and> sum_relative_date (service_extract_post_summary fromisoformat now post_data handle)
         = entry_created_at post_data)
   \<and> (\<forall>s. CHR ''Z'' \<notin> set s \<longrightarrow> str_replace (s @ ''Z'') CHR ''Z'' ''+00:00'' = s @ ''+00:00'')
   \<and> entry_created_at example_post = ''2024-01-15T10:30:00Z''
   \<and> (accepts_common_format fromisoformat \<longrightarrow>
       sum_post_date (extract_post_summary fromisoformat example_post handle)
         = ''2024-01-15 10:30:00 UTC''
     \<and> sum_post_date (service_extract_post_summary fromisoformat now example_post handle)
         = ''2024-01-15 10:30:00 UTC'')"
proof -
  let ?r = "fromisoformat (str_replace (entry_created_at post_data) CHR ''Z'' ''+00:00'')"
  have parsed: "sum_post_date (extract_post_summary fromisoformat post_data handle)
         = str_nat (year dt) @ ''-'' @ zfill 2 (str_nat (month dt)) @ ''-''
           @ zfill 2 (str_nat (day dt)) @ '' '' @ zfill 2 (str_nat (hour dt)) @ '':''
           @ zfill 2 (str_nat (minute dt)) @ '':'' @ zfill 2 (str_nat (second dt)) @ '' UTC''
     \<and> sum_post_date (service_extract_post_summary fromisoformat now post_data handle)
         = sum_post_date (extract_post_summary fromisoformat post_data handle)
     \<and> sum_relative_date (service_extract_post_summary fromisoformat now post_data handle)
         = get_relative_time now dt
     \<and> (valid_datetime dt \<longrightarrow>
          (matches_pattern ''9999-99-99 99:99:99 UTC''
             (sum_post_date (extract_post_summary fromisoformat post_data handle))
           \<longleftrightarrow> 1000 \<le> year dt))"
    if r: "?r = Some dt" for dt
  proof -
    have a: "sum_post_date (extract_post_summary fromisoformat post_data handle) = strftime_utc dt"
      by (simp add: extract_post_date r)
    have b: "sum_post_date (service_extract_post_summary fromisoformat now post_data handle)
          = strftime_utc dt"
      and c: "sum_relative_date (service_extract_post_summary fromisoformat now post_data handle)
          = get_relative_time now dt"
      using service_extract_dates [of fromisoformat now post_data handle] by (simp_all add: r)
    have d: "strftime_utc dt = str_nat (year dt) @ ''-'' @ zfill 2 (str_nat (month dt)) @ ''-''
           @ zfill 2 (str_nat (day dt)) @ '' '' @ zfill 2 (str_nat (hour dt)) @ '':''
           @ zfill 2 (str_nat (minute dt)) @ '':'' @ zfill 2 (str_nat (second dt)) @ '' UTC''"
      by (simp add: strftime_utc_def)
    have e: "valid_datetime dt \<longrightarrow>
          (matches_pattern ''9999-99-99 99:99:99 UTC'' (strftime_utc dt) \<longleftrightarrow> 1000 \<le> year dt)"
      by (simp add: strftime_utc_shape)
    from a b c d e show ?thesis by (simp only: simp_thms)
  qed
  have failed: "sum_post_date (extract_post_summary fromisoformat post_data handle)
         = entry_created_at post_data
     \<and> sum_post_date (service_extract_post_summary fromisoformat now post_data handle)
         = entry_created_at post_data
     \<and> sum_relative_date (service_extract_post_summary fromisoformat now post_data handle)
         = entry_created_at post_data"
    if "?r = None"
    using that service_extract_dates [of fromisoformat now post_data handle]
    by (simp add: extract_post_date)
  have ex0: "entry_created_at example_post = ''2024-01-15T10:30:00Z''"
    by (simp add: example_post_def entry_created_at_def get_or_def)
  have ex: "sum_post_date (extract_post_summary fromisoformat example_post handle)
         = ''2024-01-15 10:30:00 UTC''
     \<and> sum_post_date (service_extract_post_summary fromisoformat now example_post handle)
         = ''2024-01-15 10:30:00 UTC''"
    if "accepts_common_format fromisoformat"
  proof -
    from that parse_half_past_ten
    have p: "fromisoformat ''2024-01-15T10:30:00+00:00'' = Some half_past_ten"
      by (simp add: accepts_common_format_def)
    have "sum_post_date (extract_post_summary fromisoformat example_post handle)
         = ''2024-01-15 10:30:00 UTC''"
      by (simp add: extract_post_date example_post_created_at p strftime_half_past_ten)
    moreover have "sum_post_date (service_extract_post_summary fromisoformat now example_post
                                    handle)
         = ''2024-01-15 10:30:00 UTC''"
      using service_extract_dates [of fromisoformat now example_post handle]
      by (simp add: example_post_created_at p strftime_half_past_ten)
    ultimately show ?thesis ..
  qed
  have z: "\<forall>s. CHR ''Z'' \<notin> set s \<longrightarrow> str_replace (s @ ''Z'') CHR ''Z'' ''+00:00'' = s @ ''+00:00''"
    by (simp add: str_replace_trailing_Z)
  from parsed failed ex0 ex z show ?thesis by blast
qed

lemma accepts_common_format_model: "accepts_common_format fromisoformat_model"
  by (simp add: accepts_common_format_def)

theorem created_at_formatting_witness:
  "fromisoformat_model (str_replace (entry_created_at example_post) CHR ''Z'' ''+00:00'')
     = Some half_past_ten
   \<and> valid_datetime half_past_ten
   \<and> accepts_common_format fromisoformat_model
   \<and> sum_post_date (extract_post_summary fromisoformat_model example_post ''alice.bsky.social'')
       = ''2024-01-15 10:30:00 UTC''
   \<and> sum_post_date (service_extract_post_summary fromisoformat_model
         (half_past_ten\<lparr>minute := 31\<rparr>) example_post ''alice.bsky.social'')
       = ''2024-01-15 10:30:00 UTC''
   \<and> sum_relative_date (service_extract_post_summary fromisoformat_model
         (half_past_ten\<lparr>minute := 31\<rparr>) example_post ''alice.bsky.social'')
       = get_relative_time (half_past_ten\<lparr>minute := 31\<rparr>) half_past_ten
   \<and> matches_pattern ''9999-99-99 99:99:99 UTC''
       (sum_post_date (extract_post_summary fromisoformat_model example_post
          ''alice.bsky.social''))
   \<and> 1000 \<le> year half_past_ten
   \<and> fromisoformat_model (str_replace (entry_created_at undated_post) CHR ''Z'' ''+00:00'') = None
   \<and> sum_post_date (extract_post_summary fromisoformat_model undated_post ''alice.bsky.social'')
       = ''yesterday''
   \<and> sum_post_date (service_extract_post_summary fromisoformat_model
         (half_past_ten\<lparr>minute := 31\<rparr>) undated_post ''alice.bsky.social'')
       = ''yesterday''
   \<and> sum_relative_date (service_extract_post_summary fromisoformat_model
         (half_past_ten\<lparr>minute := 31\<rparr>) undated_post ''alice.bsky.social'')
       = ''yesterday''
   \<and> CHR ''Z'' \<notin> set ''2024-01-15T10:30:00''
   \<and> str_replace (''2024-01-15T10:30:00'' @ ''Z'') CHR ''Z'' ''+00:00''
       = ''2024-01-15T10:30:00'' @ ''+00:00''"
proof -
  have p: "fromisoformat_model (str_replace (entry_created_at example_post) CHR ''Z'' ''+00:00'')
     = Some half_past_ten"
    by (simp only: example_post_created_at parse_half_past_ten)
  have n: "fromisoformat_model (str_replace (entry_created_at undated_post) CHR ''Z'' ''+00:00'')
     = None"
    by (simp only: undated_post_created_at(2) parse_yesterday)
  have z: "CHR ''Z'' \<notin> set ''2024-01-15T10:30:00''" by simp
  have y: "1000 \<le> year half_past_ten" by (simp add: half_past_ten_def)
  from created_at_formatting [where fromisoformat = fromisoformat_model
      and post_data = example_post and handle = "''alice.bsky.social''"
      and now = "half_past_ten\<lparr>minute := 31\<rparr>"]
    created_at_formatting [where fromisoformat = fromisoformat_model
      and post_data = undated_post and handle = "''alice.bsky.social''"
      and now = "half_past_ten\<lparr>minute := 31\<rparr>"]
    p n z y valid_half_past_ten accepts_common_format_model
  show ?thesis
    by (simp add: undated_post_created_at str_replace_def)
qed

section \<open>Properties of the relative time\<close>

lemma str_int_1: "str_int 1 = ''1''"
  by (simp add: str_int_def str_nat.simps digit_char_def)

lemma str_int_45: "str_int 45 = ''45''"
  by (simp add: str_int_def str_nat.simps digit_char_def)

lemma single_unit:
  fixes us :: int
  assumes "0 < k" and "k \<le> us" and "\<not> 1 < us div k"
  shows "str_int (us div k) = ''1''"
proof -
  have "1 \<le> us div k" using assms(1,2) pos_imp_zdiv_pos_iff [of k us] by linarith
  with assms(3) have "us div k = 1" by linarith
  then show ?thesis by (simp add: str_int_1)
qed

lemma elapsed_since_long_ago: "604800 * 1000000 \<le> elapsed_microseconds half_past_ten long_ago"
  by (simp add: elapsed_microseconds_def toordinal_def days_before_year_def
      days_before_month_def is_leap_def half_past_ten_def long_ago_def)

lemma strftime_short_long_ago: "strftime_short long_ago = ''Jan 15, 999''"
  by (simp add: strftime_short_def month_abbr_def long_ago_def zfill_def str_nat.simps
      digit_char_def)

text \<open>
  Claim C6 says that a timestamp of seven days ago or more is written in the format
  \<open>Mon DD, YYYY\<close>. The year is written by \<^verbatim>\<open>%Y\<close>, which does not pad: the timestamp
  \<open>0999-01-15T10:30:00+00:00\<close> parses, and seen from 15 January 2024 its relative time is
  \<open>Jan 15, 999\<close>, with three digits where the stated format has four.
\<close>

theorem get_relative_time_buckets_counterexample:
  "fromisoformat_model ''0999-01-15T10:30:00+00:00'' = Some long_ago
   \<and> 604800 * 1000000 \<le> elapsed_microseconds half_past_ten long_ago
   \<and> get_relative_time half_past_ten long_ago = ''Jan 15, 999''
   \<and> \<not> matches_pattern ''Jan 99, 9999'' (get_relative_time half_past_ten long_ago)"
proof -
  have g: "get_relative_time half_past_ten long_ago = ''Jan 15, 999''"
    using elapsed_since_long_ago
    by (simp add: get_relative_time_def Let_def strftime_short_long_ago)
  have "\<not> matches_pattern ''Jan 99, 9999'' ''Jan 15, 999''" by (simp add: is_digit_def)
  with g parse_long_ago elapsed_since_long_ago show ?thesis by simp
qed

text \<open>
  Claim C6, amended. The relative time is decided by the elapsed time \<open>now - dt\<close> alone:
  \<open>just now\<close> under 60 seconds (which includes a timestamp in the future), the whole
  minutes followed by \<open>m ago\<close> under an hour, the whole hours followed by \<open>h ago\<close> under a
  day, the whole days followed by \<open>d ago\<close> under seven days, and otherwise the date as
  \<open>Mon DD, Y\<close>: the month name, the day in two digits and the year in decimal without
  padding, which has the shape \<open>Mon DD, YYYY\<close> exactly for the years from 1000 on. The
  source's special case for a count of one writes the same text as the general case, so a
  count of one is \<open>1m ago\<close>, \<open>1h ago\<close> or \<open>1d ago\<close>. An elapsed time of 45 minutes gives
  \<open>45m ago\<close> and of exactly one minute \<open>1m ago\<close>.
\<close>

theorem get_relative_time_buckets:
  "get_relative_time now dt =
     (let us = elapsed_microseconds now dt
      in if us < 60 * 1000000 then ''just now''
         else if us < 3600 * 1000000 then str_int (us div (60 * 1000000)) @ ''m ago''
         else if us < 86400 * 1000000 then str_int (us div (3600 * 1000000)) @ ''h ago''
         else if us < 604800 * 1000000 then str_int (us div (86400 * 1000000)) @ ''d ago''
         else month_abbr (month dt) @ '' '' @ zfill 2 (str_nat (day dt)) @ '', ''
              @ str_nat (year dt))
   \<and> (valid_datetime dt \<longrightarrow> 604800 * 1000000 \<le> elapsed_microseconds now dt \<longrightarrow>
        (matches_pattern (month_abbr (month dt) @ '' 99, 9999'') (get_relative_time now dt)
         \<longleftrightarrow> 1000 \<le> year dt))
   \<and> (elapsed_microseconds now dt = 45 * 60 * 1000000 \<longrightarrow>
        get_relative_time now dt = ''45m ago'')
   \<and> (elapsed_microseconds now dt = 60 * 1000000 \<longrightarrow>
        get_relative_time now dt = ''1m ago'')"
proof -
  define us where "us = elapsed_microseconds now dt"
  have buckets: "get_relative_time now dt =
     (if us < 60 * 1000000 then ''just now''
      else if us < 3600 * 1000000 then str_int (us div (60 * 1000000)) @ ''m ago''
      else if us < 86400 * 1000000 then str_int (us div (3600 * 1000000)) @ ''h ago''
      else if us < 604800 * 1000000 then str_int (us div (86400 * 1000000)) @ ''d ago''
      else strftime_short dt)"
  proof -
    consider (now) "us < 60 * 1000000"
      | (minutes) "60 * 1000000 \<le> us" "us < 3600 * 1000000"
      | (hours) "3600 * 1000000 \<le> us" "us < 86400 * 1000000"
      | (days) "86400 * 1000000 \<le> us" "us < 604800 * 1000000"
      | (older) "604800 * 1000000 \<le> us"
      by linarith
    then show ?thesis
    proof cases
      case now
      then show ?thesis by (simp add: get_relative_time_def Let_def us_def [symmetric])
    next
      case minutes
      then have "\<not> 1 < us div 60000000 \<Longrightarrow> str_int (us div 60000000) = ''1''"
        by (intro single_unit) simp_all
      with minutes show ?thesis
        by (simp add: get_relative_time_def Let_def us_def [symmetric])
    next
      case hours
      then have "\<not> 1 < us div 3600000000 \<Longrightarrow> str_int (us div 3600000000) = ''1''"
        by (intro single_unit) simp_all
      with hours show ?thesis
        by (simp add: get_relative_time_def Let_def us_def [symmetric])
    next
      case days
      then have "\<not> 1 < us div 86400000000 \<Longrightarrow> str_int (us div 86400000000) = ''1''"
        by (intro single_unit) simp_all
      with days show ?thesis
        by (simp add: get_relative_time_def Let_def us_def [symmetric])
    next
      case older
      then show ?thesis by (simp add: get_relative_time_def Let_def us_def [symmetric])
    qed
  qed
  have "us = 45 * 60 * 1000000 \<Longrightarrow> get_relative_time now dt = ''45m ago''"
    by (simp add: buckets str_int_45)
  moreover have "us = 60 * 1000000 \<Longrightarrow> get_relative_time now dt = ''1m ago''"
    by (simp add: buckets str_int_1)
  moreover have "valid_datetime dt \<Longrightarrow> 604800 * 1000000 \<le> us \<Longrightarrow>
      (matches_pattern (month_abbr (month dt) @ '' 99, 9999'') (get_relative_time now dt)
       \<longleftrightarrow> 1000 \<le> year dt)"
    using strftime_short_shape [of dt] by (simp add: buckets)
  moreover have "strftime_short dt = month_abbr (month dt) @ '' '' @ zfill 2 (str_nat (day dt))
      @ '', '' @ str_nat (year dt)"
    by (simp add: strftime_short_def)
  ultimately show ?thesis using buckets by (simp add: us_def Let_def)
qed


theorem get_relative_time_buckets_witness:
  "elapsed_microseconds (half_past_ten\<lparr>hour := 11, minute := 15\<rparr>) half_past_ten
      = 45 * 60 * 1000000
   \<and> get_relative_time (half_past_ten\<lparr>hour := 11, minute := 15\<rparr>) half_past_ten = ''45m ago''
   \<and> elapsed_microseconds (half_past_ten\<lparr>minute := 31\<rparr>) half_past_ten = 60 * 1000000
   \<and> get_relative_time (half_past_ten\<lparr>minute := 31\<rparr>) half_past_ten = ''1m ago''
   \<and> valid_datetime half_past_ten
   \<and> 604800 * 1000000 \<le> elapsed_microseconds (half_past_ten\<lparr>day := 25\<rparr>) half_past_ten
   \<and> matches_pattern ''Jan 99, 9999''
       (get_relative_time (half_past_ten\<lparr>day := 25\<rparr>) half_past_ten)
   \<and> get_relative_time (half_past_ten\<lparr>day := 25\<rparr>) half_past_ten = ''Jan 15, 2024''
   \<and> 1000 \<le> year half_past_ten"
proof -
  have a: "elapsed_microseconds (half_past_ten\<lparr>hour := 11, minute := 15\<rparr>) half_past_ten
      = 45 * 60 * 1000000"
    by (simp add: elapsed_microseconds_def toordinal_def half_past_ten_def)
  have b: "elapsed_microseconds (half_past_ten\<lparr>minute := 31\<rparr>) half_past_ten = 60 * 1000000"
    by (simp add: elapsed_microseconds_def toordinal_def half_past_ten_def)
  have c: "elapsed_microseconds (half_past_ten\<lparr>day := 25\<rparr>) half_past_ten
      = 10 * 86400 * 1000000"
    by (simp add: elapsed_microseconds_def toordinal_def days_before_month_def
        days_in_month_def half_past_ten_def)
  have m: "month_abbr (month half_past_ten) = ''Jan''"
    by (simp add: month_abbr_def half_past_ten_def)
  have s: "month_abbr (month half_past_ten) @ '' '' @ zfill 2 (str_nat (day half_past_ten))
      @ '', '' @ str_nat (year half_past_ten) = ''Jan 15, 2024''"
    by (simp add: month_abbr_def half_past_ten_def zfill_def str_nat.simps digit_char_def)
  have y: "1000 \<le> year half_past_ten" by (simp add: half_past_ten_def)
  from get_relative_time_buckets [of "half_past_ten\<lparr>hour := 11, minute := 15\<rparr>" half_past_ten]
    get_relative_time_buckets [of "half_past_ten\<lparr>minute := 31\<rparr>" half_past_ten]
    get_relative_time_buckets [of "half_past_ten\<lparr>day := 25\<rparr>" half_past_ten]
    a b c m s y valid_half_past_ten
  show ?thesis by (simp add: str_int_1 str_int_45 is_digit_def)
qed

section \<open>Properties of the report formatter\<close>

lemma csv_field_plain:
  "\<forall>c \<in> set s. c \<noteq> CHR '','' \<and> c \<noteq> dquote \<and> c \<noteq> CHR 0x0D \<and> c \<noteq> CHR 0x0A \<Longrightarrow> csv_field s = s"
  by (auto simp: csv_field_def)

lemma csv_header: "csv_row fieldnames = header_line"
  by (simp add: csv_row_def fieldnames_def header_line_def csv_field_def dquote_def)

lemma generate_csv_nonempty:
  "summaries \<noteq> [] \<Longrightarrow>
   generate_csv summaries
     = header_line @ concat (map (\<lambda>row. csv_row (dict_to_list row)) summaries)"
  by (simp add: generate_csv_def csv_header)

text \<open>
  Claim C8 says that the header row is written for every list of summaries, the empty
  list included. For the empty list \<^verbatim>\<open>_generate_csv\<close> returns before it creates the
  writer: the output is the empty string and holds no header.
\<close>

theorem csv_header_counterexample:
  "generate_csv [] = [] \<and> \<not> startswith (generate_csv []) header_line"
  by (simp add: generate_csv_def startswith_def header_line_def)

text \<open>
  Claim C8, amended. For every non-empty list of summaries the CSV output is the header
  row \<open>handle,post_date,post_url,first_line,likes,reposts,replies,quotes,uri\<close> followed by
  one row for each summary, in order, whose cells are the values of exactly these nine
  columns in this order; there is no column for the full text or the relative date. For
  the empty list the output is the empty string.
\<close>

theorem csv_columns:
  "(summaries \<noteq> [] \<longrightarrow>
      generate_csv summaries
        = header_line
          @ concat (map (\<lambda>row. join '','' (map csv_field
                [sum_handle row, sum_post_date row, sum_post_url row, sum_first_line row,
                 str_int (sum_likes row), str_int (sum_reposts row), str_int (sum_replies row),
                 str_int (sum_quotes row), sum_uri row]) @ [CHR 0x0D, CHR 0x0A]) summaries))
   \<and> generate_csv [] = []
   \<and> fieldnames = [''handle'', ''post_date'', ''post_url'', ''first_line'', ''likes'',
                    ''reposts'', ''replies'', ''quotes'', ''uri'']
   \<and> csv_row fieldnames = header_line
   \<and> ''text'' \<notin> set fieldnames \<and> ''relative_date'' \<notin> set fieldnames
   \<and> (\<forall>row. length (dict_to_list row) = length fieldnames)"
proof -
  have "generate_csv summaries
        = header_line
          @ concat (map (\<lambda>row. join '','' (map csv_field
                [sum_handle row, sum_post_date row, sum_post_url row, sum_first_line row,
                 str_int (sum_likes row), str_int (sum_reposts row), str_int (sum_replies row),
                 str_int (sum_quotes row), sum_uri row]) @ [CHR 0x0D, CHR 0x0A]) summaries)"
    if "summaries \<noteq> []"
    using that by (simp add: generate_csv_nonempty csv_row_def dict_to_list_def)
  moreover have "generate_csv [] = []" by (simp add: generate_csv_def)
  moreover have "''text'' \<notin> set fieldnames \<and> ''relative_date'' \<notin> set fieldnames"
    by (simp add: fieldnames_def)
  moreover have "\<forall>row. length (dict_to_list row) = length fieldnames"
    by (simp add: dict_to_list_def fieldnames_def)
  ultimately show ?thesis using csv_header by (simp add: fieldnames_def)
qed

lemma str_int_digits: "str_int 3 = ''3''" "str_int 0 = ''0''"
  by (simp_all add: str_int_def str_nat.simps digit_char_def)

theorem csv_columns_witness:
  "[example_summary] \<noteq> []
   \<and> generate_csv [example_summary]
       = header_line
         @ ''alice.bsky.social,2024-01-15 10:30:00 UTC,''
         @ ''https://bsky.app/profile/alice.bsky.social/post/xyz123,''
         @ [CHR 0x22] @ ''Hello, world'' @ [CHR 0x22]
         @ '',3,0,0,0,at://did:plc:abc/app.bsky.feed.post/xyz123'' @ [CHR 0x0D, CHR 0x0A]"
  using csv_columns [of "[example_summary]"]
  by (simp add: example_summary_def csv_field_def dquote_def str_replace_def str_int_digits)

lemma json_string_plain:
  "json_string ''did'' = [CHR 0x22] @ ''did'' @ [CHR 0x22]"
  "json_string ''handle'' = [CHR 0x22] @ ''handle'' @ [CHR 0x22]"
  "json_string ''post_count'' = [CHR 0x22] @ ''post_count'' @ [CHR 0x22]"
  "json_string ''generated_at'' = [CHR 0x22] @ ''generated_at'' @ [CHR 0x22]"
  "json_string ''posts'' = [CHR 0x22] @ ''posts'' @ [CHR 0x22]"
  by (simp_all add: json_string_def json_escape_def dquote_def Let_def)

lemma dumps_empty_report:
  "dumps 0 (report_json did handle [] generated_at) = empty_report_text did handle generated_at"
  by (simp add: report_json_def empty_report_text_def json_string_plain newline_indent_def
      newline_def str_int_def str_nat.simps digit_char_def Let_def numeral_2_eq_2)

lemma str_lower_formats: "str_lower ''csv'' = ''csv''" "str_lower ''json'' = ''json''"
  by (simp_all add: str_lower_def lower_char_def)

lemma generate_report_no_posts:
  assumes "resolve_handle get_profile did s = (handle, s1)"
    and "fetch_user_posts get_feed did lim s1 = Inr ([], sent, s2)"
  shows "str_lower output_format = ''json'' \<Longrightarrow>
         generate_report get_profile get_feed fromisoformat utcnow did output_format lim s
           = Inr (empty_report_text did handle (strftime_utc utcnow), s2)"
    and "str_lower output_format = ''csv'' \<Longrightarrow>
         generate_report get_profile get_feed fromisoformat utcnow did output_format lim s
           = Inr ([], s2)"
  using assms by (simp_all add: generate_report_def dumps_empty_report generate_csv_def)

text \<open>
  Claim C9. Over zero summaries the CSV output is the empty string and the JSON output
  is the whole report object, with \<open>"post_count": 0\<close> and \<open>"posts": []\<close> among its five
  keys. So it is for \<^verbatim>\<open>generate_report\<close> whenever the fetch returns no posts, for the
  formats \<open>csv\<close> and \<open>json\<close> in any letter case.
\<close>

theorem report_over_no_summaries:
  "generate_csv [] = []
   \<and> dumps 0 (report_json did handle [] generated_at)
       = (let q = [CHR 0x22]; nl = [CHR 0x0A]
          in ''{'' @ nl
             @ ''  '' @ q @ ''did'' @ q @ '': '' @ json_string did @ '','' @ nl
             @ ''  '' @ q @ ''handle'' @ q @ '': '' @ json_string handle @ '','' @ nl
             @ ''  '' @ q @ ''post_count'' @ q @ '': 0,'' @ nl
             @ ''  '' @ q @ ''generated_at'' @ q @ '': '' @ json_string generated_at @ '','' @ nl
             @ ''  '' @ q @ ''posts'' @ q @ '': []'' @ nl
             @ ''}'')
   \<and> (resolve_handle get_profile did s = (handle, s1) \<longrightarrow>
       fetch_user_posts get_feed did lim s1 = Inr ([], sent, s2) \<longrightarrow>
         (str_lower output_format = ''csv'' \<longrightarrow>
            generate_report get_profile get_feed fromisoformat utcnow did output_format lim s
              = Inr ([], s2))
       \<and> (str_lower output_format = ''json'' \<longrightarrow>
            generate_report get_profile get_feed fromisoformat utcnow did output_format lim s
              = Inr (dumps 0 (report_json did handle [] (strftime_utc utcnow)), s2)))"
proof -
  have "generate_csv [] = []" by (simp add: generate_csv_def)
  moreover have "dumps 0 (report_json did handle [] generated_at)
       = (let q = [CHR 0x22]; nl = [CHR 0x0A]
          in ''{'' @ nl
             @ ''  '' @ q @ ''did'' @ q @ '': '' @ json_string did @ '','' @ nl
             @ ''  '' @ q @ ''handle'' @ q @ '': '' @ json_string handle @ '','' @ nl
             @ ''  '' @ q @ ''post_count'' @ q @ '': 0,'' @ nl
             @ ''  '' @ q @ ''generated_at'' @ q @ '': '' @ json_string generated_at @ '','' @ nl
             @ ''  '' @ q @ ''posts'' @ q @ '': []'' @ nl
             @ ''}'')"
    by (simp only: dumps_empty_report empty_report_text_def)
  ultimately show ?thesis
    using generate_report_no_posts [of get_profile did s handle s1 get_feed lim sent s2]
    by (simp add: dumps_empty_report)
qed

lemma str_lower_JSON: "str_lower ''JSON'' = ''json''"
proof -
  have "map (of_char :: char \<Rightarrow> nat) (str_lower ''JSON'') = map of_char ''json''"
    by (simp add: str_lower_def lower_char_def)
  then show ?thesis by (simp only: inj_map_eq_map [OF inj_of_char])
qed

theorem report_over_no_summaries_witness:
  "resolve_handle alice_profile ''did:plc:abc'' () = (''alice.bsky.social'', ())
   \<and> fetch_user_posts empty_feed ''did:plc:abc'' 100 ()
       = Inr ([], [page_request ''did:plc:abc'' 100 0 None], ())
   \<and> str_lower ''csv'' = ''csv'' \<and> str_lower ''JSON'' = ''json''
   \<and> generate_report alice_profile empty_feed fromisoformat_model half_past_ten
         ''did:plc:abc'' ''csv'' 100 () = Inr ([], ())
   \<and> generate_report alice_profile empty_feed fromisoformat_model half_past_ten
         ''did:plc:abc'' ''JSON'' 100 ()
       = Inr (empty_report_text ''did:plc:abc'' ''alice.bsky.social'' ''2024-01-15 10:30:00 UTC'',
              ())"
proof -
  have r: "resolve_handle alice_profile ''did:plc:abc'' () = (''alice.bsky.social'', ())"
    by (simp add: resolve_handle_def alice_profile_def get_or_def)
  have f: "fetch_user_posts empty_feed ''did:plc:abc'' 100 ()
       = Inr ([], [page_request ''did:plc:abc'' 100 0 None], ())"
    by (simp add: fetch_user_posts_def fetch_loop.simps [of _ _ _ "[]"] empty_feed_def Let_def)
  have t: "strftime_utc half_past_ten = ''2024-01-15 10:30:00 UTC''"
    by (simp add: strftime_utc_def half_past_ten_def zfill_def str_nat.simps digit_char_def)
  from report_over_no_summaries [where get_profile = alice_profile and get_feed = empty_feed
      and fromisoformat = fromisoformat_model and utcnow = half_past_ten
      and did = "''did:plc:abc''" and lim = 100 and s = "()" and output_format = "''csv''"]
    report_over_no_summaries [where get_profile = alice_profile and get_feed = empty_feed
      and fromisoformat = fromisoformat_model and utcnow = half_past_ten
      and did = "''did:plc:abc''" and lim = 100 and s = "()" and output_format = "''JSON''"]
    r f
  show ?thesis
    by (simp add: str_lower_formats str_lower_JSON t dumps_empty_report)
qed

end
